theory Spec2Isabelle
  imports Complex_Main
begin

section \<open>The PDF export of the exam answer generator\<close>

text \<open>
  A shallow embedding of \<^verbatim>\<open>handlePdfExport\<close> (src/index.tsx, lines 110-183): the
  function that lays a title and a list of question/answer pairs out on the pages
  of a jsPDF document, stamps the footers and saves the file.

  Numbers are JavaScript numbers in the source. The vertical cursor only ever holds
  sums of small integers, on which double arithmetic is exact, so positions are
  modelled by \<^typ>\<open>real\<close> with exact arithmetic. Strings are lists of
  \<^typ>\<open>char\<close>, one \<^typ>\<open>char\<close> standing for one UTF-16 code unit below 256.
\<close>

subsection \<open>The jsPDF document\<close>

text \<open>
  Only the part of a jsPDF document that the export drives is modelled: the pages,
  each one the sequence of text drawing operations it received, the current page
  (1-based), and the graphics state read by \<^verbatim>\<open>doc.text\<close>.
\<close>

datatype align = AlignLeft | AlignCenter | AlignRight

datatype text_arg = TString string | TLines "string list"

datatype color = Gray nat | RGB nat nat nat

record text_op =
  op_text :: text_arg
  op_x :: real
  op_y :: real
  op_align :: "align option"
  op_font :: "string \<times> string"
  op_size :: nat
  op_color :: color

record jsdoc =
  pages :: "text_op list list"
  currentPage :: nat
  font :: "string \<times> string"
  fontSize :: nat
  textColor :: color

text \<open>\<^verbatim>\<open>new jsPDF(...)\<close>: one empty page, jsPDF's default graphics state.\<close>

definition new_jsPDF :: jsdoc where
  "new_jsPDF = \<lparr>pages = [[]], currentPage = 1, font = (''helvetica'', ''normal''),
     fontSize = 16, textColor = Gray 0\<rparr>"

definition setFont :: "string \<Rightarrow> string \<Rightarrow> jsdoc \<Rightarrow> jsdoc" where
  "setFont family style d = d\<lparr>font := (family, style)\<rparr>"

definition setFontSize :: "nat \<Rightarrow> jsdoc \<Rightarrow> jsdoc" where
  "setFontSize n d = d\<lparr>fontSize := n\<rparr>"

definition setTextColor :: "color \<Rightarrow> jsdoc \<Rightarrow> jsdoc" where
  "setTextColor c d = d\<lparr>textColor := c\<rparr>"

definition getNumberOfPages :: "jsdoc \<Rightarrow> nat" where
  "getNumberOfPages d = length (pages d)"

text \<open>\<^verbatim>\<open>doc.addPage()\<close> appends an empty page and makes it the current one.\<close>

definition addPage :: "jsdoc \<Rightarrow> jsdoc" where
  "addPage d = d\<lparr>pages := pages d @ [[]], currentPage := length (pages d) + 1\<rparr>"

text \<open>
  \<^verbatim>\<open>doc.setPage(i)\<close>. The export calls it with \<open>1 \<le> i \<le> getNumberOfPages\<close> only;
  outside that range the model leaves the document as it is.
\<close>

definition setPage :: "nat \<Rightarrow> jsdoc \<Rightarrow> jsdoc" where
  "setPage i d = (if 1 \<le> i \<and> i \<le> length (pages d) then d\<lparr>currentPage := i\<rparr> else d)"

text \<open>
  \<^verbatim>\<open>doc.text(text, x, y, options)\<close> records one drawing operation on the current
  page, with the graphics state of that moment.
\<close>

definition mk_op :: "text_arg \<Rightarrow> real \<Rightarrow> real \<Rightarrow> align option \<Rightarrow> jsdoc \<Rightarrow> text_op" where
  "mk_op t x y al d = \<lparr>op_text = t, op_x = x, op_y = y, op_align = al,
     op_font = font d, op_size = fontSize d, op_color = textColor d\<rparr>"

definition doc_text :: "text_arg \<Rightarrow> real \<Rightarrow> real \<Rightarrow> align option \<Rightarrow> jsdoc \<Rightarrow> jsdoc" where
  "doc_text t x y al d =
     d\<lparr>pages := (pages d)[currentPage d - 1 :=
          pages d ! (currentPage d - 1) @ [mk_op t x y al d]]\<rparr>"

subsection \<open>What the export takes from its libraries\<close>

text \<open>
  jsPDF and marked are loaded from \<^verbatim>\<open>window\<close> and are not part of the repository.
  The export is parametrised by what it reads from them: the page size of the
  document, \<^verbatim>\<open>doc.splitTextToSize\<close> (which depends on the font and the font size set
  on the document), and \<^verbatim>\<open>marked.parse\<close> followed by the \<^verbatim>\<open>innerText\<close> of the
  parsed HTML. The latter may throw, which is the value \<open>None\<close>.
\<close>

record pdf_env =
  pageHeight :: real
  pageWidth :: real
  splitTextToSize :: "string \<times> string \<Rightarrow> nat \<Rightarrow> string \<Rightarrow> real \<Rightarrow> string list"
  markedInnerText :: "string \<Rightarrow> string option"

datatype js_error = MarkedError

subsection \<open>The export\<close>

record qa_pair =
  q :: string
  a :: string

record export_state =
  doc :: jsdoc
  yPos :: real

definition pageMargin :: real where
  "pageMargin = 50"

definition contentWidth :: "pdf_env \<Rightarrow> real" where
  "contentWidth env = pageWidth env - (pageMargin * 2)"

text \<open>\<^verbatim>\<open>String(pageNumber)\<close> for a page number: its decimal digits.\<close>

definition digitChar :: "nat \<Rightarrow> char" where
  "digitChar n = char_of (48 + n)"

fun js_String :: "nat \<Rightarrow> string" where
  "js_String n = (if n < 10 then [digitChar n]
     else js_String (n div 10) @ [digitChar (n mod 10)])"

declare js_String.simps [simp del]

text \<open>\<^verbatim>\<open>addFooter\<close>, lines 121-127.\<close>

definition addFooter :: "pdf_env \<Rightarrow> string \<Rightarrow> nat \<Rightarrow> jsdoc \<Rightarrow> jsdoc" where
  "addFooter env chatTitle pageNumber d =
     (let d1 = setFont ''helvetica'' ''normal'' d;
          d2 = setFontSize 9 d1;
          d3 = setTextColor (Gray 150) d2;
          d4 = doc_text (TString chatTitle) pageMargin (pageHeight env - 20) (Some AlignLeft) d3
      in doc_text (TString (js_String pageNumber)) (pageWidth env - pageMargin)
           (pageHeight env - 20) (Some AlignRight) d4)"

text \<open>\<^verbatim>\<open>renderMarkdown\<close>, lines 129-149. An exception of marked leaves the function.\<close>

definition renderMarkdown ::
  "pdf_env \<Rightarrow> string \<Rightarrow> string \<Rightarrow> export_state \<Rightarrow> js_error + export_state" where
  "renderMarkdown env chatTitle txt st =
     (case markedInnerText env txt of
        None \<Rightarrow> Inl MarkedError
      | Some innerText \<Rightarrow>
          (let d1 = setTextColor (RGB 50 50 50)
                      (setFontSize 11 (setFont ''helvetica'' ''normal'' (doc st)));
               splitText = splitTextToSize env (font d1) (fontSize d1) innerText (contentWidth env);
               textHeight = real (length splitText) * 12;
               st1 = st\<lparr>doc := d1\<rparr>;
               st2 = (if yPos st1 + textHeight > pageHeight env - pageMargin
                      then st1\<lparr>doc := addPage (addFooter env chatTitle
                                        (getNumberOfPages (doc st1)) (doc st1)),
                               yPos := pageMargin\<rparr>
                      else st1);
               st3 = st2\<lparr>doc := doc_text (TLines splitText) pageMargin (yPos st2) None (doc st2)\<rparr>
           in Inr (st3\<lparr>yPos := yPos st3 + textHeight + 10\<rparr>)))"

text \<open>The title heading, lines 151-157.\<close>

definition drawTitle :: "pdf_env \<Rightarrow> string \<Rightarrow> export_state \<Rightarrow> export_state" where
  "drawTitle env chatTitle st =
     (let st1 = st\<lparr>yPos := 80\<rparr>;
          d1 = setTextColor (RGB 0 0 0) (setFontSize 24 (setFont ''helvetica'' ''bold'' (doc st1)));
          titleLines = splitTextToSize env (font d1) (fontSize d1) chatTitle (contentWidth env);
          d2 = doc_text (TLines titleLines) (pageWidth env / 2) (yPos st1) (Some AlignCenter) d1
      in st1\<lparr>doc := d2, yPos := yPos st1 + real (length titleLines) * 26 + 40\<rparr>)"

text \<open>The question of one pair, lines 160-170.\<close>

definition drawQuestion :: "pdf_env \<Rightarrow> string \<Rightarrow> qa_pair \<Rightarrow> export_state \<Rightarrow> export_state" where
  "drawQuestion env chatTitle qa st =
     (let d1 = setTextColor (RGB 0 0 0) (setFontSize 12 (setFont ''helvetica'' ''bold'' (doc st)));
          qLines = splitTextToSize env (font d1) (fontSize d1) (q qa) (contentWidth env);
          st1 = st\<lparr>doc := d1\<rparr>;
          st2 = (if yPos st1 + real (length qLines) * 14 > pageHeight env - pageMargin
                 then st1\<lparr>doc := addPage (addFooter env chatTitle
                                   (getNumberOfPages (doc st1)) (doc st1)),
                          yPos := pageMargin\<rparr>
                 else st1);
          st3 = st2\<lparr>doc := doc_text (TLines qLines) pageMargin (yPos st2) None (doc st2)\<rparr>
      in st3\<lparr>yPos := yPos st3 + real (length qLines) * 14 + 15\<rparr>)"

text \<open>The body of the \<^verbatim>\<open>forEach\<close> callback, lines 160-173.\<close>

definition pairStep ::
  "pdf_env \<Rightarrow> string \<Rightarrow> qa_pair \<Rightarrow> export_state \<Rightarrow> js_error + export_state" where
  "pairStep env chatTitle qa st =
     (case renderMarkdown env chatTitle (a qa) (drawQuestion env chatTitle qa st) of
        Inl e \<Rightarrow> Inl e
      | Inr st' \<Rightarrow> Inr (st'\<lparr>yPos := yPos st' + 25\<rparr>))"

text \<open>\<^verbatim>\<open>qaPairs.forEach\<close>, lines 159-174: an exception of the callback ends the loop.\<close>

fun forEachPair ::
  "pdf_env \<Rightarrow> string \<Rightarrow> qa_pair list \<Rightarrow> export_state \<Rightarrow> js_error + export_state" where
  "forEachPair env chatTitle [] st = Inr st"
| "forEachPair env chatTitle (qa # qas) st =
     (case pairStep env chatTitle qa st of
        Inl e \<Rightarrow> Inl e
      | Inr st' \<Rightarrow> forEachPair env chatTitle qas st')"

text \<open>The footer loop, lines 177-180: \<^verbatim>\<open>for (let i = 1; i <= totalPages; i++)\<close>.\<close>

function footerLoop :: "pdf_env \<Rightarrow> string \<Rightarrow> nat \<Rightarrow> nat \<Rightarrow> jsdoc \<Rightarrow> jsdoc" where
  "footerLoop env chatTitle i totalPages d =
     (if i \<le> totalPages
      then footerLoop env chatTitle (i + 1) totalPages (addFooter env chatTitle i (setPage i d))
      else d)"
  by pat_completeness auto
termination
  by (relation "measure (\<lambda>(env, chatTitle, i, totalPages, d). totalPages + 1 - i)") auto

declare footerLoop.simps [simp del]

text \<open>
  The file name, line 182:
  \<^verbatim>\<open>chatTitle.replace(/[^a-z0-9]/gi, '_').toLowerCase()\<close> followed by \<^verbatim>\<open>.pdf\<close>.
  The pattern has no \<^verbatim>\<open>u\<close> flag, so it is matched against single code units, and
  under the \<^verbatim>\<open>i\<close> flag the class \<^verbatim>\<open>[a-z0-9]\<close> holds the ASCII letters of both cases
  and the digits, and no other code unit.
\<close>

definition inClass_az09_i :: "char \<Rightarrow> bool" where
  "inClass_az09_i c =
     (let n = (of_char c :: nat)
      in (97 \<le> n \<and> n \<le> 122) \<or> (65 \<le> n \<and> n \<le> 90) \<or> (48 \<le> n \<and> n \<le> 57))"

definition replaceNonAlnum :: "string \<Rightarrow> string" where
  "replaceNonAlnum s = map (\<lambda>c. if \<not> inClass_az09_i c then CHR ''_'' else c) s"

text \<open>
  \<^verbatim>\<open>toLowerCase\<close> on code units below 256: the ASCII capitals and the Latin-1
  capitals (all of 192..222 but the multiplication sign) move up by 32.
\<close>

definition toLowerChar :: "char \<Rightarrow> char" where
  "toLowerChar c =
     (let n = (of_char c :: nat)
      in if (65 \<le> n \<and> n \<le> 90) \<or> (192 \<le> n \<and> n \<le> 222 \<and> n \<noteq> 215)
         then char_of (n + 32) else c)"

definition toLowerCase :: "string \<Rightarrow> string" where
  "toLowerCase s = map toLowerChar s"

definition fileName :: "string \<Rightarrow> string" where
  "fileName chatTitle = toLowerCase (replaceNonAlnum chatTitle) @ ''.pdf''"

text \<open>
  \<^verbatim>\<open>handlePdfExport\<close>, lines 110-183. The files saved by \<^verbatim>\<open>doc.save\<close> are the only
  effect that outlives the call: the function takes the list of files saved so far
  and returns it with the exception that left the function, if one did.
\<close>

type_synonym download = "string \<times> jsdoc"

definition handlePdfExport ::
  "pdf_env \<Rightarrow> string \<Rightarrow> qa_pair list \<Rightarrow> download list \<Rightarrow> js_error option \<times> download list" where
  "handlePdfExport env chatTitle qaPairs saved =
     (if length qaPairs = 0 then (None, saved)
      else
        (let st0 = \<lparr>doc = new_jsPDF, yPos = pageMargin\<rparr>;
             st1 = drawTitle env chatTitle st0
         in case forEachPair env chatTitle qaPairs st1 of
              Inl e \<Rightarrow> (Some e, saved)
            | Inr st2 \<Rightarrow>
                (let totalPages = getNumberOfPages (doc st2);
                     d3 = footerLoop env chatTitle 1 totalPages (doc st2)
                 in (None, saved @ [(fileName chatTitle, d3)]))))"

subsection \<open>A concrete setting\<close>

text \<open>
  An A4 page in points, as jsPDF has it, a text splitter that breaks at line feeds
  only (what \<^verbatim>\<open>splitTextToSize\<close> does on lines shorter than the content width), and
  the markdown conversion as marked and \<^verbatim>\<open>innerText\<close> have it on a paragraph of
  plain text: the text followed by a line feed, and nothing for the empty text.
\<close>

fun splitLines :: "string \<Rightarrow> string \<Rightarrow> string list" where
  "splitLines acc [] = [rev acc]"
| "splitLines acc (c # cs) =
     (if c = CHR 0x0A then rev acc # splitLines [] cs else splitLines (c # acc) cs)"

definition a4env :: pdf_env where
  "a4env = \<lparr>pageHeight = 841.89, pageWidth = 595.28,
     splitTextToSize = (\<lambda>f n s w. splitLines [] s),
     markedInnerText = (\<lambda>s. if s = [] then Some [] else Some (s @ [CHR 0x0A]))\<rparr>"

subsection \<open>Notions used to state the properties\<close>

text \<open>The current page of a document exists.\<close>

definition wf_doc :: "jsdoc \<Rightarrow> bool" where
  "wf_doc d = (1 \<le> currentPage d \<and> currentPage d \<le> length (pages d))"

text \<open>
  The wrapped lines of the three kinds of block, as the export computes them: with
  the font and the size that are set when \<^verbatim>\<open>splitTextToSize\<close> is called.
\<close>

definition titleLinesOf :: "pdf_env \<Rightarrow> string \<Rightarrow> string list" where
  "titleLinesOf env chatTitle =
     splitTextToSize env (''helvetica'', ''bold'') 24 chatTitle (contentWidth env)"

definition qLinesOf :: "pdf_env \<Rightarrow> qa_pair \<Rightarrow> string list" where
  "qLinesOf env qa = splitTextToSize env (''helvetica'', ''bold'') 12 (q qa) (contentWidth env)"

definition answerLinesOf :: "pdf_env \<Rightarrow> string \<Rightarrow> string list" where
  "answerLinesOf env plain =
     splitTextToSize env (''helvetica'', ''normal'') 11 plain (contentWidth env)"

text \<open>The two drawing operations of one footer: the title and the page number.\<close>

definition titleStamp :: "pdf_env \<Rightarrow> string \<Rightarrow> text_op" where
  "titleStamp env chatTitle =
     \<lparr>op_text = TString chatTitle, op_x = pageMargin, op_y = pageHeight env - 20,
      op_align = Some AlignLeft, op_font = (''helvetica'', ''normal''), op_size = 9,
      op_color = Gray 150\<rparr>"

definition numberStamp :: "pdf_env \<Rightarrow> nat \<Rightarrow> text_op" where
  "numberStamp env n =
     \<lparr>op_text = TString (js_String n), op_x = pageWidth env - pageMargin,
      op_y = pageHeight env - 20, op_align = Some AlignRight,
      op_font = (''helvetica'', ''normal''), op_size = 9, op_color = Gray 150\<rparr>"

definition footerOps :: "pdf_env \<Rightarrow> string \<Rightarrow> nat \<Rightarrow> text_op list" where
  "footerOps env chatTitle n = [titleStamp env chatTitle, numberStamp env n]"

text \<open>The drawing operation of the title heading.\<close>

definition titleBlock :: "pdf_env \<Rightarrow> string \<Rightarrow> text_op" where
  "titleBlock env chatTitle =
     \<lparr>op_text = TLines (titleLinesOf env chatTitle), op_x = pageWidth env / 2, op_y = 80,
      op_align = Some AlignCenter, op_font = (''helvetica'', ''bold''), op_size = 24,
      op_color = RGB 0 0 0\<rparr>"

text \<open>The title heading is the first drawing operation of page 1.\<close>

definition titleFirst :: "pdf_env \<Rightarrow> string \<Rightarrow> text_op list list \<Rightarrow> bool" where
  "titleFirst env chatTitle pgs =
     (case pgs of (b # bs) # rest \<Rightarrow> b = titleBlock env chatTitle | _ \<Rightarrow> False)"

text \<open>The pages of the document that an export saves, when it saves one.\<close>

definition exportedPages :: "pdf_env \<Rightarrow> string \<Rightarrow> qa_pair list \<Rightarrow> text_op list list option" where
  "exportedPages env chatTitle qaPairs =
     (case handlePdfExport env chatTitle qaPairs [] of
        (None, [(f, d)]) \<Rightarrow> Some (pages d)
      | _ \<Rightarrow> None)"

text \<open>The characters of a derived file name before its extension: \<^verbatim>\<open>[a-z0-9_]\<close>.\<close>

definition isFileNameChar :: "char \<Rightarrow> bool" where
  "isFileNameChar c =
     (let n = (of_char c :: nat)
      in (97 \<le> n \<and> n \<le> 122) \<or> (48 \<le> n \<and> n \<le> 57) \<or> n = 95)"

text \<open>A text of \<open>n\<close> short lines, and a pair with a one-line question.\<close>

definition linesText :: "nat \<Rightarrow> string" where
  "linesText n = concat (replicate (n - 1) [CHR ''A'', CHR 0x0A]) @ ''A''"

definition pairWithAnswer :: "string \<Rightarrow> qa_pair" where
  "pairWithAnswer txt = \<lparr>q = ''Q'', a = txt\<rparr>"

text \<open>The state in which the title is drawn.\<close>

definition initialState :: export_state where
  "initialState = \<lparr>doc = new_jsPDF, yPos = pageMargin\<rparr>"

text \<open>The same setting with a markdown conversion that throws on every text.\<close>

definition throwingEnv :: pdf_env where
  "throwingEnv = a4env\<lparr>markedInnerText := (\<lambda>s. None)\<rparr>"

text \<open>A page height of whole points, on which a block can fit exactly.\<close>

definition a4round :: pdf_env where
  "a4round = a4env\<lparr>pageHeight := 842\<rparr>"

text \<open>A title of at most 40 characters that has 39 lines.\<close>

definition tallTitle :: string where
  "tallTitle = ''A'' @ replicate 38 (CHR 0x0A) @ ''A''"

text \<open>The drawing operation drawn last on the current page.\<close>

definition drawnBlock :: "export_state \<Rightarrow> text_op" where
  "drawnBlock st = last (pages (doc st) ! (currentPage (doc st) - 1))"

text \<open>
  The state of the document during the content pass: the current page is the last
  one, every page before it carries its footer once, and the last page carries none.
\<close>

definition atLastPage :: "jsdoc \<Rightarrow> bool" where
  "atLastPage d = (pages d \<noteq> [] \<and> currentPage d = length (pages d))"

definition stampedTimes :: "pdf_env \<Rightarrow> string \<Rightarrow> nat \<Rightarrow> jsdoc \<Rightarrow> bool" where
  "stampedTimes env chatTitle n d =
     (\<forall>k < length (pages d) - 1.
        count_list (pages d ! k) (titleStamp env chatTitle) = n \<and>
        count_list (pages d ! k) (numberStamp env (Suc k)) = n)"

definition contentInv :: "pdf_env \<Rightarrow> string \<Rightarrow> jsdoc \<Rightarrow> bool" where
  "contentInv env chatTitle d =
     (atLastPage d \<and> stampedTimes env chatTitle 1 d \<and>
      count_list (last (pages d)) (titleStamp env chatTitle) = 0 \<and>
      count_list (last (pages d)) (numberStamp env (length (pages d))) = 0)"

text \<open>
  Two settings give the same answers on a title and a list of pairs: the same page
  size, the same lines for the title and for every question, the same result of
  the markdown conversion for every answer, and the same lines for the converted
  answer.
\<close>

definition agreeOn :: "pdf_env \<Rightarrow> pdf_env \<Rightarrow> string \<Rightarrow> qa_pair list \<Rightarrow> bool" where
  "agreeOn env1 env2 chatTitle qaPairs =
     (pageHeight env1 = pageHeight env2 \<and> pageWidth env1 = pageWidth env2 \<and>
      titleLinesOf env1 chatTitle = titleLinesOf env2 chatTitle \<and>
      (\<forall>p \<in> set qaPairs.
         qLinesOf env1 p = qLinesOf env2 p \<and>
         markedInnerText env1 (a p) = markedInnerText env2 (a p) \<and>
         (\<forall>plain. markedInnerText env1 (a p) = Some plain \<longrightarrow>
            answerLinesOf env1 plain = answerLinesOf env2 plain)))"

text \<open>
  A setting that answers as the concrete one on the answer \<open>A\<close> and on every text
  to split under the fonts of the title, the questions and the answers, and
  differently elsewhere: the conversion throws on every other text, and nothing is
  split under the font size of the footer.
\<close>

definition a4envVariant :: pdf_env where
  "a4envVariant = a4env\<lparr>
     splitTextToSize := (\<lambda>f n s w. if n = 9 then [] else splitLines [] s),
     markedInnerText := (\<lambda>s. if s = ''A'' then Some (s @ [CHR 0x0A]) else None)\<rparr>"

section \<open>Properties\<close>

subsection \<open>Auxiliary facts\<close>

lemmas jsdoc_defs = setFont_def setFontSize_def setTextColor_def getNumberOfPages_def
  addPage_def doc_text_def mk_op_def

lemma wf_doc_index: "wf_doc d \<Longrightarrow> currentPage d - 1 < length (pages d)"
  by (simp add: wf_doc_def) arith

lemma pages_addFooter:
  assumes "wf_doc d"
  shows "pages (addFooter env t n d) =
     (pages d)[currentPage d - 1 := pages d ! (currentPage d - 1) @ footerOps env t n]"
proof -
  have "currentPage d - 1 < length (pages d)"
    using assms by (rule wf_doc_index)
  then show ?thesis
    by (simp add: addFooter_def jsdoc_defs footerOps_def titleStamp_def numberStamp_def)
qed

lemma length_pages_addFooter: "length (pages (addFooter env t n d)) = length (pages d)"
  by (simp add: addFooter_def jsdoc_defs)

lemma currentPage_addFooter: "currentPage (addFooter env t n d) = currentPage d"
  by (simp add: addFooter_def jsdoc_defs)

lemma addFooter_gstate:
  "font (addFooter env t n d) = (''helvetica'', ''normal'')"
  "fontSize (addFooter env t n d) = 9"
  "textColor (addFooter env t n d) = Gray 150"
  by (simp_all add: addFooter_def jsdoc_defs)

lemma update_appended: "length xs = n \<Longrightarrow> (xs @ [y])[n := z] = xs @ [z]"
  by auto

lemma wf_doc_gstate [simp]:
  "wf_doc (d\<lparr>font := f\<rparr>) = wf_doc d"
  "wf_doc (d\<lparr>fontSize := n\<rparr>) = wf_doc d"
  "wf_doc (d\<lparr>textColor := c\<rparr>) = wf_doc d"
  by (simp_all add: wf_doc_def)

lemma atLastPage_wf: "atLastPage d \<Longrightarrow> wf_doc d"
  by (cases "pages d") (simp_all add: atLastPage_def wf_doc_def)

text \<open>The text splitter of the concrete setting on a text of short lines.\<close>

lemma splitLines_linesText_aux:
  "splitLines acc (concat (replicate k [CHR ''A'', CHR 0x0A]) @ [CHR ''A'', CHR 0x0A]) =
     (rev acc @ ''A'') # replicate k ''A'' @ [[]]"
proof (induction k arbitrary: acc)
  case 0
  show ?case by simp
next
  case (Suc k)
  show ?case by (simp add: Suc.IH)
qed

lemma splitLines_linesText:
  "splitLines [] (linesText n @ [CHR 0x0A]) = replicate (Suc (n - 1)) ''A'' @ [[]]"
  using splitLines_linesText_aux [of "[]" "n - 1"] by (simp add: linesText_def)

text \<open>The markdown conversion of the concrete setting never throws.\<close>

lemma a4env_converts: "markedInnerText a4env s \<noteq> None"
  by (simp add: a4env_def)

lemma a4env_linesText: "markedInnerText a4env (linesText n) = Some (linesText n @ [CHR 0x0A])"
  by (simp add: a4env_def linesText_def)

lemma a4env_answerLines:
  "answerLinesOf a4env (linesText n @ [CHR 0x0A]) = replicate (Suc (n - 1)) ''A'' @ [[]]"
  by (simp add: answerLinesOf_def a4env_def splitLines_linesText)

lemma length_tallTitle: "length (splitLines [] tallTitle) = 39"
  unfolding tallTitle_def by code_simp

subsection \<open>The file name\<close>

lemma toLowerChar_underscore: "toLowerChar (CHR ''_'') = CHR ''_''"
  by (simp add: toLowerChar_def)

lemma isFileNameChar_lower: "inClass_az09_i c \<Longrightarrow> isFileNameChar (toLowerChar c)"
  by (auto simp add: isFileNameChar_def toLowerChar_def inClass_az09_i_def Let_def)

lemma isFileNameChar_underscore: "isFileNameChar (CHR ''_'')"
  by (simp add: isFileNameChar_def)

lemma fileName_map:
  "fileName t = map (\<lambda>c. if inClass_az09_i c then toLowerChar c else CHR ''_'') t @ ''.pdf''"
  by (induction t)
    (simp_all add: fileName_def toLowerCase_def replaceNonAlnum_def toLowerChar_underscore)

lemma fileName_stem_chars:
  "list_all isFileNameChar
     (map (\<lambda>c. if inClass_az09_i c then toLowerChar c else CHR ''_'') t)"
  by (induction t) (simp_all add: isFileNameChar_lower isFileNameChar_underscore)

text \<open>
  Claim C5, as the code has it. For every title the file name is the title with
  every character outside \<^verbatim>\<open>[a-z0-9]\<close> (matched case-insensitively) replaced by an
  underscore, one underscore per replaced character, the letters lower-cased, and
  \<^verbatim>\<open>.pdf\<close> appended; the name before the extension is as long as the title and
  consists of characters of \<^verbatim>\<open>[a-z0-9_]\<close> only. The title
  \<^verbatim>\<open>Q1 (5 marks): Explain Photosynthesis...\<close> yields
  \<^verbatim>\<open>q1__5_marks___explain_photosynthesis___.pdf\<close>.
\<close>

theorem fileName_derivation:
  "fileName t = map (\<lambda>c. if inClass_az09_i c then toLowerChar c else CHR ''_'') t @ ''.pdf''
   \<and> length (fileName t) = length t + 4
   \<and> list_all isFileNameChar (take (length t) (fileName t))
   \<and> fileName ''Q1 (5 marks): Explain Photosynthesis...'' =
       ''q1__5_marks___explain_photosynthesis___.pdf''"
proof -
  have "fileName ''Q1 (5 marks): Explain Photosynthesis...'' =
      ''q1__5_marks___explain_photosynthesis___.pdf''"
    by code_simp
  then show ?thesis
    using fileName_stem_chars [of t] by (simp add: fileName_map)
qed

text \<open>
  The file name that claim C5 gives for its example title is not the one the code
  derives: the code replaces the blank and the parenthesis after \<^verbatim>\<open>Q1\<close> by one
  underscore each.
\<close>

theorem fileName_example_differs:
  "fileName ''Q1 (5 marks): Explain Photosynthesis...'' \<noteq>
     ''q1_5_marks__explain_photosynthesis___.pdf''"
  by code_simp

theorem fileName_derivation_witness:
  "fileName ''Q1 (5)'' = ''q1__5_.pdf''
   \<and> list_all isFileNameChar (take (length ''Q1 (5)'') (fileName ''Q1 (5)''))"
proof -
  have "fileName ''Q1 (5)'' = ''q1__5_.pdf''"
    by code_simp
  moreover have "list_all isFileNameChar (take (length ''Q1 (5)'') (fileName ''Q1 (5)''))"
    using fileName_derivation [of "''Q1 (5)''"] by blast
  ultimately show ?thesis
    by blast
qed

subsection \<open>The empty transcript\<close>

text \<open>
  Claim C4, as the code has it. When the sequence of pairs is empty the export
  returns at once: no exception leaves the function and no file is saved.
\<close>

theorem empty_transcript_returns:
  "handlePdfExport env t [] saved = (None, saved)"
  by (simp add: handlePdfExport_def)

text \<open>Against claim C4: on the empty transcript the export ends without an error.\<close>

theorem empty_transcript_no_error:
  "handlePdfExport a4env ''Exam Answer Generator'' [] [] = (None, [])"
  by (simp add: handlePdfExport_def)

subsection \<open>Exceptions and saved files\<close>

text \<open>
  Claim C7. If an exception leaves the export, for any title and any pairs, the
  files saved are those saved before the call: no document is saved.
\<close>

theorem no_file_when_thrown:
  "fst (handlePdfExport env t ps saved) = Some e \<Longrightarrow>
     snd (handlePdfExport env t ps saved) = saved"
  by (auto simp add: handlePdfExport_def Let_def split: if_splits sum.splits)

theorem no_file_when_thrown_witness:
  "fst (handlePdfExport throwingEnv ''T'' [pairWithAnswer ''A''] []) = Some MarkedError
   \<and> snd (handlePdfExport throwingEnv ''T'' [pairWithAnswer ''A''] []) = []"
proof -
  have thrown: "fst (handlePdfExport throwingEnv ''T'' [pairWithAnswer ''A''] []) = Some MarkedError"
    by (simp add: handlePdfExport_def pairStep_def renderMarkdown_def throwingEnv_def
        pairWithAnswer_def Let_def)
  from no_file_when_thrown [OF thrown] thrown show ?thesis
    by simp
qed

subsection \<open>Page breaks\<close>

lemma drawTitle_yPos:
  "yPos (drawTitle env t st) = 80 + real (length (titleLinesOf env t)) * 26 + 40"
  by (simp add: drawTitle_def titleLinesOf_def jsdoc_defs Let_def)

lemma drawTitle_pages:
  "getNumberOfPages (doc (drawTitle env t st)) = getNumberOfPages (doc st)"
  by (simp add: drawTitle_def jsdoc_defs Let_def)

lemma drawQuestion_break:
  "getNumberOfPages (doc (drawQuestion env t qa st)) =
     getNumberOfPages (doc st) +
       (if yPos st + real (length (qLinesOf env qa)) * 14 > pageHeight env - pageMargin
        then 1 else 0)
   \<and> yPos (drawQuestion env t qa st) =
     (if yPos st + real (length (qLinesOf env qa)) * 14 > pageHeight env - pageMargin
      then pageMargin else yPos st) + real (length (qLinesOf env qa)) * 14 + 15"
  by (simp add: drawQuestion_def jsdoc_defs qLinesOf_def Let_def length_pages_addFooter)

lemma renderMarkdown_break:
  "markedInnerText env md = Some plain \<Longrightarrow>
   (case renderMarkdown env t md st of
      Inl e \<Rightarrow> False
    | Inr st' \<Rightarrow>
        getNumberOfPages (doc st') = getNumberOfPages (doc st) +
          (if yPos st + real (length (answerLinesOf env plain)) * 12 > pageHeight env - pageMargin
           then 1 else 0) \<and>
        yPos st' =
          (if yPos st + real (length (answerLinesOf env plain)) * 12 > pageHeight env - pageMargin
           then pageMargin else yPos st) + real (length (answerLinesOf env plain)) * 12 + 10)"
  by (simp add: renderMarkdown_def jsdoc_defs answerLinesOf_def Let_def length_pages_addFooter)

text \<open>
  Against claim C2: the title is a block too, and no overflow test guards it. The
  39 lines of this title reach from the offset 80 beyond the bottom margin, and the
  document keeps its one page.
\<close>

theorem title_overflows_without_break:
  "80 + real (length (titleLinesOf a4env tallTitle)) * 26 > pageHeight a4env - pageMargin
   \<and> getNumberOfPages (doc (drawTitle a4env tallTitle initialState)) =
       getNumberOfPages (doc initialState)"
  by (simp add: titleLinesOf_def a4env_def length_tallTitle pageMargin_def drawTitle_pages)

text \<open>
  Claim C2, as the code has it. For every question block and every answer block, a
  page is added if and only if the cursor plus the height of the block is strictly
  greater than the page height minus the margin: the page count grows by one in
  that case and stays otherwise. On a break the block is drawn from the top margin,
  otherwise from the cursor, and the cursor ends below the block and its spacing.
  The title block is drawn without this test.
\<close>

theorem break_iff_overflow:
  assumes "markedInnerText env md = Some plain"
  shows "getNumberOfPages (doc (drawQuestion env t qa st)) =
       getNumberOfPages (doc st) +
         (if yPos st + real (length (qLinesOf env qa)) * 14 > pageHeight env - pageMargin
          then 1 else 0)
     \<and> yPos (drawQuestion env t qa st) =
         (if yPos st + real (length (qLinesOf env qa)) * 14 > pageHeight env - pageMargin
          then pageMargin else yPos st) + real (length (qLinesOf env qa)) * 14 + 15
     \<and> (case renderMarkdown env t md st of
          Inl e \<Rightarrow> False
        | Inr st' \<Rightarrow>
            getNumberOfPages (doc st') = getNumberOfPages (doc st) +
              (if yPos st + real (length (answerLinesOf env plain)) * 12
                    > pageHeight env - pageMargin
               then 1 else 0) \<and>
            yPos st' =
              (if yPos st + real (length (answerLinesOf env plain)) * 12
                    > pageHeight env - pageMargin
               then pageMargin else yPos st)
              + real (length (answerLinesOf env plain)) * 12 + 10)"
  using drawQuestion_break [of env t qa st] renderMarkdown_break [OF assms, where t = t and st = st]
  by blast

text \<open>
  On a page of 842 points the bottom margin is at 792. A one-line question at 778
  ends exactly there and stays on the page; at 779 it moves to a second page. The
  answer \<open>A\<close> is converted to two lines, 24 points: at 768 it ends exactly at the
  margin and stays, at 769 it moves.
\<close>

theorem break_iff_overflow_witness:
  "markedInnerText a4round ''A'' = Some [CHR ''A'', CHR 0x0A]
   \<and> getNumberOfPages (doc (drawQuestion a4round ''T'' (pairWithAnswer ''A'')
        (initialState\<lparr>yPos := 778\<rparr>))) = 1
   \<and> getNumberOfPages (doc (drawQuestion a4round ''T'' (pairWithAnswer ''A'')
        (initialState\<lparr>yPos := 779\<rparr>))) = 2
   \<and> yPos (drawQuestion a4round ''T'' (pairWithAnswer ''A'')
        (initialState\<lparr>yPos := 779\<rparr>)) = 79
   \<and> map_sum id (\<lambda>st'. (getNumberOfPages (doc st'), yPos st'))
        (renderMarkdown a4round ''T'' ''A'' (initialState\<lparr>yPos := 768\<rparr>)) = Inr (1, 802)
   \<and> map_sum id (\<lambda>st'. (getNumberOfPages (doc st'), yPos st'))
        (renderMarkdown a4round ''T'' ''A'' (initialState\<lparr>yPos := 769\<rparr>)) = Inr (2, 84)"
proof -
  have conv: "markedInnerText a4round ''A'' = Some [CHR ''A'', CHR 0x0A]"
    by (simp add: a4round_def a4env_def)
  have ph: "pageHeight a4round = 842"
    by (simp add: a4round_def a4env_def)
  have lenq: "length (qLinesOf a4round (pairWithAnswer ''A'')) = 1"
    by (simp add: qLinesOf_def a4round_def a4env_def pairWithAnswer_def)
  have lena: "length (answerLinesOf a4round [CHR ''A'', CHR 0x0A]) = 2"
    by (simp add: answerLinesOf_def a4round_def a4env_def)
  have one: "getNumberOfPages (doc initialState) = 1"
    by (simp add: initialState_def new_jsPDF_def getNumberOfPages_def)
  note at = break_iff_overflow [OF conv, where t = "''T''" and qa = "pairWithAnswer ''A''"]
  from at [where st = "initialState\<lparr>yPos := 778\<rparr>"]
  have "getNumberOfPages (doc (drawQuestion a4round ''T'' (pairWithAnswer ''A'')
        (initialState\<lparr>yPos := 778\<rparr>))) = 1"
    by (simp add: ph lenq one pageMargin_def)
  moreover from at [where st = "initialState\<lparr>yPos := 779\<rparr>"]
  have "getNumberOfPages (doc (drawQuestion a4round ''T'' (pairWithAnswer ''A'')
        (initialState\<lparr>yPos := 779\<rparr>))) = 2
     \<and> yPos (drawQuestion a4round ''T'' (pairWithAnswer ''A'')
        (initialState\<lparr>yPos := 779\<rparr>)) = 79"
    by (simp add: ph lenq one pageMargin_def)
  moreover from at [where st = "initialState\<lparr>yPos := 768\<rparr>"]
  have "map_sum id (\<lambda>st'. (getNumberOfPages (doc st'), yPos st'))
        (renderMarkdown a4round ''T'' ''A'' (initialState\<lparr>yPos := 768\<rparr>)) = Inr (1, 802)"
    by (simp add: ph lena one pageMargin_def split: sum.splits)
  moreover from at [where st = "initialState\<lparr>yPos := 769\<rparr>"]
  have "map_sum id (\<lambda>st'. (getNumberOfPages (doc st'), yPos st'))
        (renderMarkdown a4round ''T'' ''A'' (initialState\<lparr>yPos := 769\<rparr>)) = Inr (2, 84)"
    by (simp add: ph lena one pageMargin_def split: sum.splits)
  ultimately show ?thesis
    using conv by blast
qed

subsection \<open>Blocks stay whole\<close>

lemma drawQuestion_effect:
  assumes wf: "wf_doc (doc st)"
  shows "op_text (drawnBlock (drawQuestion env t qa st)) = TLines (qLinesOf env qa)
    \<and> (if yPos st + real (length (qLinesOf env qa)) * 14 > pageHeight env - pageMargin
       then pages (doc (drawQuestion env t qa st)) =
              (pages (doc st))[currentPage (doc st) - 1 :=
                 pages (doc st) ! (currentPage (doc st) - 1) @
                   footerOps env t (length (pages (doc st)))]
              @ [[drawnBlock (drawQuestion env t qa st)]]
            \<and> currentPage (doc (drawQuestion env t qa st)) = length (pages (doc st)) + 1
            \<and> op_y (drawnBlock (drawQuestion env t qa st)) = pageMargin
       else pages (doc (drawQuestion env t qa st)) =
              (pages (doc st))[currentPage (doc st) - 1 :=
                 pages (doc st) ! (currentPage (doc st) - 1) @
                   [drawnBlock (drawQuestion env t qa st)]]
            \<and> currentPage (doc (drawQuestion env t qa st)) = currentPage (doc st)
            \<and> op_y (drawnBlock (drawQuestion env t qa st)) = yPos st)"
proof -
  have idx: "currentPage (doc st) - 1 < length (pages (doc st))"
    using wf by (rule wf_doc_index)
  show ?thesis
    using idx wf
    by (simp add: drawQuestion_def drawnBlock_def Let_def getNumberOfPages_def addPage_def
        doc_text_def mk_op_def setFont_def setFontSize_def setTextColor_def qLinesOf_def
        pages_addFooter length_pages_addFooter nth_append addFooter_gstate
        currentPage_addFooter update_appended)
qed

lemma renderMarkdown_effect:
  assumes conv: "markedInnerText env md = Some plain"
    and wf: "wf_doc (doc st)"
  shows "case renderMarkdown env t md st of
      Inl e \<Rightarrow> False
    | Inr st' \<Rightarrow>
        op_text (drawnBlock st') = TLines (answerLinesOf env plain)
      \<and> (if yPos st + real (length (answerLinesOf env plain)) * 12 > pageHeight env - pageMargin
         then pages (doc st') =
                (pages (doc st))[currentPage (doc st) - 1 :=
                   pages (doc st) ! (currentPage (doc st) - 1) @
                     footerOps env t (length (pages (doc st)))]
                @ [[drawnBlock st']]
              \<and> currentPage (doc st') = length (pages (doc st)) + 1
              \<and> op_y (drawnBlock st') = pageMargin
         else pages (doc st') =
                (pages (doc st))[currentPage (doc st) - 1 :=
                   pages (doc st) ! (currentPage (doc st) - 1) @ [drawnBlock st']]
              \<and> currentPage (doc st') = currentPage (doc st)
              \<and> op_y (drawnBlock st') = yPos st)"
proof -
  have idx: "currentPage (doc st) - 1 < length (pages (doc st))"
    using wf by (rule wf_doc_index)
  show ?thesis
    using idx wf conv
    by (simp add: renderMarkdown_def drawnBlock_def Let_def getNumberOfPages_def addPage_def
        doc_text_def mk_op_def setFont_def setFontSize_def setTextColor_def answerLinesOf_def
        pages_addFooter length_pages_addFooter nth_append addFooter_gstate
        currentPage_addFooter update_appended)
qed

lemma wf_doc_drawQuestion: "wf_doc (doc st) \<Longrightarrow> wf_doc (doc (drawQuestion env t qa st))"
  using drawQuestion_effect [of st env t qa]
  by (auto simp add: wf_doc_def split: if_splits)

text \<open>
  Claim C3. A question block and an answer block are each drawn by one drawing
  operation that holds all the lines of the block. When the height of the block is
  at most the usable page height (page height minus both margins), the block ends
  at or above the bottom margin of the page it is drawn on; it is either appended
  to the current page at the cursor, when it fits there, or it is the one operation
  of a new last page, drawn from the top margin. The current page of the document
  is assumed to exist, as it does throughout the export.
\<close>

theorem block_never_split:
  assumes wf: "wf_doc (doc st)"
    and conv: "markedInnerText env md = Some plain"
    and fitq: "real (length (qLinesOf env qa)) * 14 \<le> pageHeight env - 2 * pageMargin"
    and fita: "real (length (answerLinesOf env plain)) * 12 \<le> pageHeight env - 2 * pageMargin"
  shows "op_text (drawnBlock (drawQuestion env t qa st)) = TLines (qLinesOf env qa)
    \<and> op_y (drawnBlock (drawQuestion env t qa st)) + real (length (qLinesOf env qa)) * 14
         \<le> pageHeight env - pageMargin
    \<and> (if yPos st + real (length (qLinesOf env qa)) * 14 > pageHeight env - pageMargin
       then pages (doc (drawQuestion env t qa st)) =
              (pages (doc st))[currentPage (doc st) - 1 :=
                 pages (doc st) ! (currentPage (doc st) - 1) @
                   footerOps env t (length (pages (doc st)))]
              @ [[drawnBlock (drawQuestion env t qa st)]]
            \<and> currentPage (doc (drawQuestion env t qa st)) = length (pages (doc st)) + 1
            \<and> op_y (drawnBlock (drawQuestion env t qa st)) = pageMargin
       else pages (doc (drawQuestion env t qa st)) =
              (pages (doc st))[currentPage (doc st) - 1 :=
                 pages (doc st) ! (currentPage (doc st) - 1) @
                   [drawnBlock (drawQuestion env t qa st)]]
            \<and> currentPage (doc (drawQuestion env t qa st)) = currentPage (doc st)
            \<and> op_y (drawnBlock (drawQuestion env t qa st)) = yPos st)
    \<and> (case renderMarkdown env t md st of
          Inl e \<Rightarrow> False
        | Inr st' \<Rightarrow>
            op_text (drawnBlock st') = TLines (answerLinesOf env plain)
          \<and> op_y (drawnBlock st') + real (length (answerLinesOf env plain)) * 12
               \<le> pageHeight env - pageMargin
          \<and> (if yPos st + real (length (answerLinesOf env plain)) * 12
                  > pageHeight env - pageMargin
             then pages (doc st') =
                    (pages (doc st))[currentPage (doc st) - 1 :=
                       pages (doc st) ! (currentPage (doc st) - 1) @
                         footerOps env t (length (pages (doc st)))]
                    @ [[drawnBlock st']]
                  \<and> currentPage (doc st') = length (pages (doc st)) + 1
                  \<and> op_y (drawnBlock st') = pageMargin
             else pages (doc st') =
                    (pages (doc st))[currentPage (doc st) - 1 :=
                       pages (doc st) ! (currentPage (doc st) - 1) @ [drawnBlock st']]
                  \<and> currentPage (doc st') = currentPage (doc st)
                  \<and> op_y (drawnBlock st') = yPos st))"
proof -
  note q = drawQuestion_effect [OF wf, of env t qa]
  have qfit: "op_y (drawnBlock (drawQuestion env t qa st)) + real (length (qLinesOf env qa)) * 14
         \<le> pageHeight env - pageMargin"
  proof (cases "yPos st + real (length (qLinesOf env qa)) * 14 > pageHeight env - pageMargin")
    case True
    with q have "op_y (drawnBlock (drawQuestion env t qa st)) = pageMargin"
      by simp
    with fitq show ?thesis
      by simp
  next
    case False
    with q have "op_y (drawnBlock (drawQuestion env t qa st)) = yPos st"
      by simp
    with False show ?thesis
      by simp
  qed
  from renderMarkdown_effect [OF conv wf, of t] obtain st' where
    r: "renderMarkdown env t md st = Inr st'"
    by (auto split: sum.splits)
  note an = renderMarkdown_effect [OF conv wf, of t, unfolded r, simplified]
  have afit: "op_y (drawnBlock st') + real (length (answerLinesOf env plain)) * 12
         \<le> pageHeight env - pageMargin"
  proof (cases "yPos st + real (length (answerLinesOf env plain)) * 12
                  > pageHeight env - pageMargin")
    case True
    with an have "op_y (drawnBlock st') = pageMargin"
      by simp
    with fita show ?thesis
      by simp
  next
    case False
    with an have "op_y (drawnBlock st') = yPos st"
      by simp
    with False show ?thesis
      by simp
  qed
  from q qfit an afit show ?thesis
    unfolding r by simp
qed

text \<open>
  After the title \<open>T\<close> a one-line question is appended to page 1 at the offset 146;
  an answer of 60 lines is converted to 61 lines, 732 points, does not fit below
  the offset 700 and is drawn from the top margin of a new second page.
\<close>

theorem block_never_split_witness:
  "wf_doc (doc (drawTitle a4env ''T'' initialState))
   \<and> markedInnerText a4env (linesText 60) = Some (linesText 60 @ [CHR 0x0A])
   \<and> real (length (qLinesOf a4env (pairWithAnswer ''A''))) * 14
        \<le> pageHeight a4env - 2 * pageMargin
   \<and> real (length (answerLinesOf a4env (linesText 60 @ [CHR 0x0A]))) * 12
        \<le> pageHeight a4env - 2 * pageMargin
   \<and> op_text (drawnBlock (drawQuestion a4env ''T'' (pairWithAnswer ''A'')
        (drawTitle a4env ''T'' initialState))) = TLines [''Q'']
   \<and> op_y (drawnBlock (drawQuestion a4env ''T'' (pairWithAnswer ''A'')
        (drawTitle a4env ''T'' initialState))) = 146
   \<and> map_sum id (\<lambda>st'. (op_text (drawnBlock st'), op_y (drawnBlock st'), currentPage (doc st')))
        (renderMarkdown a4env ''T'' (linesText 60)
           ((drawTitle a4env ''T'' initialState)\<lparr>yPos := 700\<rparr>))
      = Inr (TLines (replicate 60 ''A'' @ [[]]), 50, 2)"
proof -
  let ?s0 = "drawTitle a4env ''T'' initialState"
  have wf: "wf_doc (doc ?s0)"
    by (simp add: drawTitle_def initialState_def new_jsPDF_def jsdoc_defs Let_def wf_doc_def)
  have wf': "wf_doc (doc (?s0\<lparr>yPos := 700\<rparr>))"
    using wf by simp
  have n1: "length (pages (doc ?s0)) = 1"
    using drawTitle_pages [of a4env "''T''" initialState]
    by (simp add: getNumberOfPages_def initialState_def new_jsPDF_def)
  have conv: "markedInnerText a4env (linesText 60) = Some (linesText 60 @ [CHR 0x0A])"
    by (rule a4env_linesText)
  have ph: "pageHeight a4env = 841.89"
    by (simp add: a4env_def)
  have ql: "qLinesOf a4env (pairWithAnswer ''A'') = [''Q'']"
    by (simp add: qLinesOf_def a4env_def pairWithAnswer_def)
  have al: "answerLinesOf a4env (linesText 60 @ [CHR 0x0A]) = replicate 60 ''A'' @ [[]]"
    by (simp add: a4env_answerLines)
  have fitq: "real (length (qLinesOf a4env (pairWithAnswer ''A''))) * 14
        \<le> pageHeight a4env - 2 * pageMargin"
    by (simp add: ql ph pageMargin_def)
  have fita: "real (length (answerLinesOf a4env (linesText 60 @ [CHR 0x0A]))) * 12
        \<le> pageHeight a4env - 2 * pageMargin"
    by (simp add: al ph pageMargin_def)
  have y0: "yPos ?s0 = 146"
    by (simp add: drawTitle_yPos titleLinesOf_def a4env_def)
  from block_never_split [OF wf conv fitq fita, of "''T''"]
  have "op_text (drawnBlock (drawQuestion a4env ''T'' (pairWithAnswer ''A'') ?s0)) = TLines [''Q'']
   \<and> op_y (drawnBlock (drawQuestion a4env ''T'' (pairWithAnswer ''A'') ?s0)) = 146"
    by (simp add: ql y0 ph pageMargin_def)
  moreover from block_never_split [OF wf' conv fitq fita, of "''T''"]
  have "map_sum id (\<lambda>st'. (op_text (drawnBlock st'), op_y (drawnBlock st'), currentPage (doc st')))
        (renderMarkdown a4env ''T'' (linesText 60) (?s0\<lparr>yPos := 700\<rparr>))
      = Inr (TLines (replicate 60 ''A'' @ [[]]), 50, 2)"
    by (simp add: al ph pageMargin_def n1 split: sum.splits)
  ultimately show ?thesis
    using wf conv fitq fita by blast
qed


subsection \<open>The cursor after an advance\<close>

lemma drawQuestion_cursor:
  assumes "pageMargin \<le> yPos st"
  shows "pageMargin \<le> yPos (drawQuestion env t qa st)
    \<and> (real (length (qLinesOf env qa)) * 14 \<le> pageHeight env - 2 * pageMargin \<longrightarrow>
         yPos (drawQuestion env t qa st) \<le> pageHeight env - pageMargin + 15)"
  using assms by (simp add: drawQuestion_break)

lemma renderMarkdown_cursor:
  assumes "pageMargin \<le> yPos st" and "markedInnerText env md = Some plain"
  shows "case renderMarkdown env t md st of
      Inl e \<Rightarrow> False
    | Inr st' \<Rightarrow>
        pageMargin \<le> yPos st'
      \<and> (real (length (answerLinesOf env plain)) * 12 \<le> pageHeight env - 2 * pageMargin \<longrightarrow>
           yPos st' \<le> pageHeight env - pageMargin + 10)"
  using assms renderMarkdown_break [where env = env and md = md and plain = plain and t = t and st = st]
  by (auto split: sum.splits)

lemma pairStep_cursor:
  assumes "pageMargin \<le> yPos st" and "pairStep env t qa st = Inr st'"
  shows "pageMargin \<le> yPos st'"
proof -
  from assms(2) obtain st1 where
    r: "renderMarkdown env t (a qa) (drawQuestion env t qa st) = Inr st1"
    and st': "st' = st1\<lparr>yPos := yPos st1 + 25\<rparr>"
    by (auto simp add: pairStep_def split: sum.splits)
  from r obtain plain where conv: "markedInnerText env (a qa) = Some plain"
    by (auto simp add: renderMarkdown_def split: option.splits)
  have "pageMargin \<le> yPos (drawQuestion env t qa st)"
    using assms(1) drawQuestion_cursor by blast
  from renderMarkdown_cursor [OF this conv, of t] r have "pageMargin \<le> yPos st1"
    by simp
  then show ?thesis
    by (simp add: st')
qed

lemma forEachPair_cursor:
  "pageMargin \<le> yPos st \<Longrightarrow> forEachPair env t ps st = Inr st' \<Longrightarrow> pageMargin \<le> yPos st'"
proof (induction ps arbitrary: st)
  case Nil
  then show ?case by simp
next
  case (Cons p ps)
  from Cons.prems(2) obtain st1 where
    step: "pairStep env t p st = Inr st1" and rest: "forEachPair env t ps st1 = Inr st'"
    by (auto split: sum.splits)
  from pairStep_cursor [OF Cons.prems(1) step] have "pageMargin \<le> yPos st1" .
  from Cons.IH [OF this rest] show ?case .
qed

text \<open>The loop over the pairs ends without an exception when marked never throws.\<close>

lemma forEachPair_Inr:
  "\<forall>p \<in> set ps. markedInnerText env (a p) \<noteq> None \<Longrightarrow> \<exists>st'. forEachPair env t ps st = Inr st'"
proof (induction ps arbitrary: st)
  case Nil
  show ?case by simp
next
  case (Cons p ps)
  from Cons.prems obtain plain where conv: "markedInnerText env (a p) = Some plain"
    by auto
  then obtain st1 where "pairStep env t p st = Inr st1"
    by (simp add: pairStep_def renderMarkdown_def Let_def)
  moreover from Cons.IH [of st1] Cons.prems obtain st' where "forEachPair env t ps st1 = Inr st'"
    by auto
  ultimately show ?case
    by simp
qed

lemma export_completes:
  assumes "ps \<noteq> []" and "\<forall>p \<in> set ps. markedInnerText env (a p) \<noteq> None"
  shows "fst (handlePdfExport env t ps saved) = None
    \<and> length (snd (handlePdfExport env t ps saved)) = length saved + 1"
proof -
  from forEachPair_Inr [OF assms(2)] obtain st' where
    "forEachPair env t ps (drawTitle env t \<lparr>doc = new_jsPDF, yPos = pageMargin\<rparr>) = Inr st'"
    by blast
  with assms(1) show ?thesis
    by (simp add: handlePdfExport_def Let_def)
qed

text \<open>
  Against claim C6: after the title \<open>T\<close> and a one-line question, an answer of 50
  lines is converted to 51 lines and fits on page 1 from the offset 175 to 787; the
  advance adds the spacing of 10 and leaves the cursor at 797, below the bottom
  margin at 791.89. Nothing tests the cursor: the export ends without an exception
  and saves its file. The advance after the title of 39 lines leaves the cursor at
  1134.
\<close>

theorem cursor_beyond_bottom_margin:
  "map_sum id yPos (renderMarkdown a4env ''T'' (linesText 50)
      (drawQuestion a4env ''T'' (pairWithAnswer (linesText 50))
         (drawTitle a4env ''T'' initialState))) = Inr 797
   \<and> (797 :: real) > pageHeight a4env - pageMargin
   \<and> fst (handlePdfExport a4env ''T'' [pairWithAnswer (linesText 50)] []) = None
   \<and> length (snd (handlePdfExport a4env ''T'' [pairWithAnswer (linesText 50)] [])) = 1
   \<and> yPos (drawTitle a4env tallTitle initialState) = 1134
   \<and> (1134 :: real) > pageHeight a4env - pageMargin"
proof -
  let ?s0 = "drawTitle a4env ''T'' initialState"
  let ?s1 = "drawQuestion a4env ''T'' (pairWithAnswer (linesText 50)) ?s0"
  have conv: "markedInnerText a4env (linesText 50) = Some (linesText 50 @ [CHR 0x0A])"
    by (rule a4env_linesText)
  have len: "length (answerLinesOf a4env (linesText 50 @ [CHR 0x0A])) = 51"
    by (simp add: a4env_answerLines)
  have lenq: "length (qLinesOf a4env (pairWithAnswer (linesText 50))) = 1"
    by (simp add: qLinesOf_def a4env_def pairWithAnswer_def)
  have ph: "pageHeight a4env = 841.89"
    by (simp add: a4env_def)
  have y0: "yPos ?s0 = 146"
    by (simp add: drawTitle_yPos titleLinesOf_def a4env_def)
  have y1: "yPos ?s1 = 175"
    using drawQuestion_break [of a4env "''T''" "pairWithAnswer (linesText 50)" ?s0]
    by (simp add: lenq y0 ph pageMargin_def)
  have "map_sum id yPos (renderMarkdown a4env ''T'' (linesText 50) ?s1) = Inr 797"
    using renderMarkdown_break [OF conv, where t = "''T''" and st = ?s1]
    by (simp add: len y1 ph pageMargin_def split: sum.splits)
  moreover have "(797 :: real) > pageHeight a4env - pageMargin"
    by (simp add: ph pageMargin_def)
  moreover have "fst (handlePdfExport a4env ''T'' [pairWithAnswer (linesText 50)] []) = None
   \<and> length (snd (handlePdfExport a4env ''T'' [pairWithAnswer (linesText 50)] [])) = 1"
    using export_completes [of "[pairWithAnswer (linesText 50)]" a4env "''T''" "[]"]
    by (simp add: a4env_converts)
  moreover have "yPos (drawTitle a4env tallTitle initialState) = 1134"
    by (simp add: drawTitle_yPos titleLinesOf_def a4env_def length_tallTitle)
  moreover have "(1134 :: real) > pageHeight a4env - pageMargin"
    by (simp add: ph pageMargin_def)
  ultimately show ?thesis
    by blast
qed

text \<open>
  Claim C6, as the code has it. The title leaves the cursor at or below the top
  margin. From a cursor at or below the top margin, the advance after a question
  block and the advance after an answer block leave it at or below the top margin,
  and at most the spacing just added (15 after a question, 10 after an answer)
  beyond the bottom margin when the block is no higher than the usable page height;
  so does the whole loop over the pairs. The code has no test of the cursor: the
  only exception of these steps is the one marked throws.
\<close>

theorem cursor_after_advance:
  assumes low: "pageMargin \<le> yPos st"
    and conv: "markedInnerText env md = Some plain"
  shows "pageMargin \<le> yPos (drawTitle env t st0)
    \<and> pageMargin \<le> yPos (drawQuestion env t qa st)
    \<and> (real (length (qLinesOf env qa)) * 14 \<le> pageHeight env - 2 * pageMargin \<longrightarrow>
         yPos (drawQuestion env t qa st) \<le> pageHeight env - pageMargin + 15)
    \<and> (case renderMarkdown env t md st of
          Inl e \<Rightarrow> False
        | Inr st' \<Rightarrow>
            pageMargin \<le> yPos st'
          \<and> (real (length (answerLinesOf env plain)) * 12 \<le> pageHeight env - 2 * pageMargin \<longrightarrow>
               yPos st' \<le> pageHeight env - pageMargin + 10))
    \<and> (case forEachPair env t ps st of
          Inl e \<Rightarrow> \<exists>p \<in> set ps. markedInnerText env (a p) = None
        | Inr st' \<Rightarrow> pageMargin \<le> yPos st')"
proof -
  have "pageMargin \<le> yPos (drawTitle env t st0)"
    by (simp add: drawTitle_yPos pageMargin_def)
  moreover have "case forEachPair env t ps st of
          Inl e \<Rightarrow> \<exists>p \<in> set ps. markedInnerText env (a p) = None
        | Inr st' \<Rightarrow> pageMargin \<le> yPos st'"
  proof (cases "forEachPair env t ps st")
    case (Inl e)
    have "\<exists>p \<in> set ps. markedInnerText env (a p) = None"
    proof (rule ccontr)
      assume "\<not> (\<exists>p \<in> set ps. markedInnerText env (a p) = None)"
      then have "\<forall>p \<in> set ps. markedInnerText env (a p) \<noteq> None"
        by simp
      from forEachPair_Inr [OF this, of t st] Inl show False
        by simp
    qed
    with Inl show ?thesis
      by simp
  next
    case (Inr st')
    with forEachPair_cursor [OF low Inr] show ?thesis
      by simp
  qed
  ultimately show ?thesis
    using drawQuestion_cursor [OF low, of env t qa] renderMarkdown_cursor [OF low conv, of t]
    by blast
qed

theorem cursor_after_advance_witness:
  "pageMargin \<le> yPos (drawTitle a4env ''T'' initialState)
   \<and> markedInnerText a4env ''A'' = Some [CHR ''A'', CHR 0x0A]
   \<and> yPos (drawQuestion a4env ''T'' (pairWithAnswer ''A'') (drawTitle a4env ''T'' initialState))
        \<le> pageHeight a4env - pageMargin + 15
   \<and> pageMargin
        \<le> yPos (drawQuestion a4env ''T'' (pairWithAnswer ''A'') (drawTitle a4env ''T'' initialState))"
proof -
  have low: "pageMargin \<le> yPos (drawTitle a4env ''T'' initialState)"
    by (simp add: drawTitle_yPos pageMargin_def)
  have conv: "markedInnerText a4env ''A'' = Some [CHR ''A'', CHR 0x0A]"
    by (simp add: a4env_def)
  have fit: "real (length (qLinesOf a4env (pairWithAnswer ''A''))) * 14
      \<le> pageHeight a4env - 2 * pageMargin"
    by (simp add: qLinesOf_def a4env_def pairWithAnswer_def pageMargin_def)
  from cursor_after_advance [OF low conv, of "''T''" initialState "pairWithAnswer ''A''" "[]"] fit
  have "yPos (drawQuestion a4env ''T'' (pairWithAnswer ''A'') (drawTitle a4env ''T'' initialState))
        \<le> pageHeight a4env - pageMargin + 15
   \<and> pageMargin
        \<le> yPos (drawQuestion a4env ''T'' (pairWithAnswer ''A'') (drawTitle a4env ''T'' initialState))"
    by blast
  with low conv show ?thesis
    by blast
qed


subsection \<open>Pairs with an empty answer\<close>

lemma in_concat_nth: "i < length xs \<Longrightarrow> x \<in> set (xs ! i) \<Longrightarrow> x \<in> set (concat xs)"
  by (metis nth_mem set_concat UN_I)

lemma in_concat_update:
  assumes "i < length xs" and "x \<in> set (xs ! i)"
  shows "x \<in> set (concat (xs[j := xs ! j @ ys]))"
proof -
  have "x \<in> set ((xs[j := xs ! j @ ys]) ! i)"
    using assms by (cases "i = j") simp_all
  moreover have "i < length (xs[j := xs ! j @ ys])"
    using assms(1) by simp
  ultimately show ?thesis
    by (rule in_concat_nth [rotated])
qed

lemma drawnBlock_in_pages:
  assumes wf: "wf_doc (doc st)"
  shows "\<exists>i < length (pages (doc (drawQuestion env t qa st))).
     drawnBlock (drawQuestion env t qa st) \<in> set (pages (doc (drawQuestion env t qa st)) ! i)"
proof -
  let ?s1 = "drawQuestion env t qa st"
  let ?k = "currentPage (doc st) - 1"
  note eff = drawQuestion_effect [OF wf, of env t qa]
  have k: "?k < length (pages (doc st))"
    using wf by (rule wf_doc_index)
  show ?thesis
  proof (cases "yPos st + real (length (qLinesOf env qa)) * 14 > pageHeight env - pageMargin")
    case True
    with eff have pg: "pages (doc ?s1) =
        (pages (doc st))[?k := pages (doc st) ! ?k @ footerOps env t (length (pages (doc st)))]
        @ [[drawnBlock ?s1]]"
      by simp
    have "length (pages (doc st)) < length (pages (doc ?s1))"
      by (simp add: pg)
    moreover have "drawnBlock ?s1 \<in> set (pages (doc ?s1) ! length (pages (doc st)))"
      by (subst pg) (simp add: nth_append)
    ultimately show ?thesis
      by blast
  next
    case False
    with eff have pg: "pages (doc ?s1) =
        (pages (doc st))[?k := pages (doc st) ! ?k @ [drawnBlock ?s1]]"
      by simp
    have "?k < length (pages (doc ?s1))"
      using k by (simp add: pg)
    moreover have "drawnBlock ?s1 \<in> set (pages (doc ?s1) ! ?k)"
      using k by (subst pg) simp
    ultimately show ?thesis
      by blast
  qed
qed

text \<open>
  Claim C9. When marked turns the empty text into the empty text, a pair whose
  answer is the empty string is exported and not left out: its question block is
  drawn, and its answer block is drawn with the lines that the empty text wraps
  into, after which the cursor moves by their height, 10 and 25. The step of the
  loop for such a pair never throws, and an export of pairs whose answers are
  empty or converted by marked without an exception ends normally with a file
  saved.
\<close>

theorem empty_answer_exported:
  assumes conv: "markedInnerText env [] = Some []"
    and empty: "a qa = []"
    and wf: "wf_doc (doc st)"
  shows "(case pairStep env t qa st of
        Inl e \<Rightarrow> False
      | Inr st' \<Rightarrow>
          op_text (drawnBlock st') = TLines (answerLinesOf env [])
        \<and> yPos st' = op_y (drawnBlock st') + real (length (answerLinesOf env [])) * 12 + 10 + 25
        \<and> TLines (qLinesOf env qa) \<in> op_text ` set (concat (pages (doc st'))))
    \<and> (ps \<noteq> [] \<and> (\<forall>p \<in> set ps. a p = [] \<or> markedInnerText env (a p) \<noteq> None) \<longrightarrow>
         fst (handlePdfExport env t ps saved) = None
       \<and> length (snd (handlePdfExport env t ps saved)) = length saved + 1)"
proof -
  let ?s1 = "drawQuestion env t qa st"
  have wf1: "wf_doc (doc ?s1)"
    using wf by (rule wf_doc_drawQuestion)
  from drawnBlock_in_pages [OF wf, of env t qa] obtain i where
    i: "i < length (pages (doc ?s1))" "drawnBlock ?s1 \<in> set (pages (doc ?s1) ! i)"
    by blast
  have qtext: "op_text (drawnBlock ?s1) = TLines (qLinesOf env qa)"
    using drawQuestion_effect [OF wf, of env t qa] by simp
  from renderMarkdown_effect [OF conv wf1, of t] obtain st1 where
    r: "renderMarkdown env t [] ?s1 = Inr st1"
    by (auto split: sum.splits)
  note eff = renderMarkdown_effect [OF conv wf1, of t, unfolded r, simplified]
  note brk = renderMarkdown_break [OF conv, where t = t and st = ?s1, unfolded r, simplified]
  have text1: "op_text (drawnBlock st1) = TLines (answerLinesOf env [])"
    using eff by simp
  have y1: "yPos st1 = op_y (drawnBlock st1) + real (length (answerLinesOf env [])) * 12 + 10"
    using eff brk by (simp split: if_splits)
  have "drawnBlock ?s1 \<in> set (concat (pages (doc st1)))"
  proof (cases "yPos ?s1 + real (length (answerLinesOf env [])) * 12 > pageHeight env - pageMargin")
    case True
    with eff have "pages (doc st1) =
        (pages (doc ?s1))[currentPage (doc ?s1) - 1 :=
           pages (doc ?s1) ! (currentPage (doc ?s1) - 1) @
             footerOps env t (length (pages (doc ?s1)))] @ [[drawnBlock st1]]"
      by simp
    with in_concat_update [OF i] show ?thesis
      by simp
  next
    case False
    with eff have "pages (doc st1) =
        (pages (doc ?s1))[currentPage (doc ?s1) - 1 :=
           pages (doc ?s1) ! (currentPage (doc ?s1) - 1) @ [drawnBlock st1]]"
      by simp
    with in_concat_update [OF i] show ?thesis
      by simp
  qed
  with qtext have q1: "TLines (qLinesOf env qa) \<in> op_text ` set (concat (pages (doc st1)))"
    by (metis imageI)
  have step: "pairStep env t qa st = Inr (st1\<lparr>yPos := yPos st1 + 25\<rparr>)"
    using r by (simp add: pairStep_def empty)
  have part1: "case pairStep env t qa st of
        Inl e \<Rightarrow> False
      | Inr st' \<Rightarrow>
          op_text (drawnBlock st') = TLines (answerLinesOf env [])
        \<and> yPos st' = op_y (drawnBlock st') + real (length (answerLinesOf env [])) * 12 + 10 + 25
        \<and> TLines (qLinesOf env qa) \<in> op_text ` set (concat (pages (doc st')))"
    using text1 y1 q1 by (simp add: step drawnBlock_def)
  have part2: "fst (handlePdfExport env t ps saved) = None
       \<and> length (snd (handlePdfExport env t ps saved)) = length saved + 1"
    if "ps \<noteq> []" and "\<forall>p \<in> set ps. a p = [] \<or> markedInnerText env (a p) \<noteq> None"
  proof -
    from that(2) conv have "\<forall>p \<in> set ps. markedInnerText env (a p) \<noteq> None"
      by auto
    from export_completes [OF that(1) this] show ?thesis .
  qed
  from part1 part2 show ?thesis
    by blast
qed

text \<open>
  In the concrete setting the empty text wraps into one empty line: after the title
  \<open>T\<close> the pair with the question \<open>Q\<close> and the empty answer is drawn on page 1, the
  answer block at the offset 175, and the export saves its file.
\<close>

theorem empty_answer_exported_witness:
  "markedInnerText a4env [] = Some []
   \<and> a (pairWithAnswer []) = []
   \<and> wf_doc (doc (drawTitle a4env ''T'' initialState))
   \<and> map_sum id (\<lambda>st'. (op_text (drawnBlock st'), yPos st' - op_y (drawnBlock st')))
        (pairStep a4env ''T'' (pairWithAnswer []) (drawTitle a4env ''T'' initialState))
      = Inr (TLines [[]], 47)
   \<and> fst (handlePdfExport a4env ''T'' [pairWithAnswer []] []) = None
   \<and> length (snd (handlePdfExport a4env ''T'' [pairWithAnswer []] [])) = 1"
proof -
  let ?s0 = "drawTitle a4env ''T'' initialState"
  have conv: "markedInnerText a4env [] = Some []"
    by (simp add: a4env_def)
  have empty: "a (pairWithAnswer []) = []"
    by (simp add: pairWithAnswer_def)
  have wf: "wf_doc (doc ?s0)"
    by (simp add: drawTitle_def initialState_def new_jsPDF_def jsdoc_defs Let_def wf_doc_def)
  have al: "answerLinesOf a4env [] = [[]]"
    by (simp add: answerLinesOf_def a4env_def)
  note inst = empty_answer_exported [OF conv empty wf, of "''T''" "[pairWithAnswer []]" "[]"]
  from inst have "map_sum id (\<lambda>st'. (op_text (drawnBlock st'), yPos st' - op_y (drawnBlock st')))
        (pairStep a4env ''T'' (pairWithAnswer []) ?s0) = Inr (TLines [[]], 47)"
    by (simp add: al split: sum.splits)
  moreover from inst have "fst (handlePdfExport a4env ''T'' [pairWithAnswer []] []) = None
   \<and> length (snd (handlePdfExport a4env ''T'' [pairWithAnswer []] [])) = 1"
    by (simp add: empty)
  ultimately show ?thesis
    using conv empty wf by blast
qed


subsection \<open>Footers\<close>

lemma stamp_neq_lines:
  "op_text b = TLines ls \<Longrightarrow> b \<noteq> titleStamp env t"
  "op_text b = TLines ls \<Longrightarrow> b \<noteq> numberStamp env n"
  by (auto simp add: titleStamp_def numberStamp_def)

lemma stamps_differ: "titleStamp env t \<noteq> numberStamp env n"
  by (simp add: titleStamp_def numberStamp_def)

lemma count_list_footerOps:
  "count_list (footerOps env t n) (titleStamp env t) = 1"
  "count_list (footerOps env t n) (numberStamp env n) = 1"
  using stamps_differ [of env t n] by (auto simp add: footerOps_def)

text \<open>Drawing a block on the last page keeps the invariant of the content pass.\<close>

lemma contentInv_draw:
  assumes inv: "contentInv env t d"
    and b: "op_text b = TLines ls"
    and pg: "pages d' = (pages d)[currentPage d - 1 := pages d ! (currentPage d - 1) @ [b]]"
    and cur: "currentPage d' = currentPage d"
  shows "contentInv env t d'"
proof -
  from inv have ne: "pages d \<noteq> []" and c: "currentPage d = length (pages d)"
    by (simp_all add: contentInv_def atLastPage_def)
  then obtain front lst where split: "pages d = front @ [lst]"
    by (metis append_butlast_last_id)
  have c': "currentPage d - 1 = length front"
    using c split by simp
  have pg': "pages d' = front @ [lst @ [b]]"
    using pg split c' by simp
  from inv split have lst0: "count_list lst (titleStamp env t) = 0"
     "count_list lst (numberStamp env (Suc (length front))) = 0"
    by (simp_all add: contentInv_def)
  from inv split have front1: "\<forall>k < length front.
        count_list (front ! k) (titleStamp env t) = 1 \<and>
        count_list (front ! k) (numberStamp env (Suc k)) = 1"
    by (simp add: contentInv_def stampedTimes_def nth_append)
  show ?thesis
    using pg' cur c split lst0 front1 stamp_neq_lines [OF b]
    by (simp add: contentInv_def atLastPage_def stampedTimes_def nth_append)
qed

text \<open>A page break keeps it too: the page left behind has its one footer.\<close>

lemma contentInv_break:
  assumes inv: "contentInv env t d"
    and b: "op_text b = TLines ls"
    and pg: "pages d' = (pages d)[currentPage d - 1 :=
        pages d ! (currentPage d - 1) @ footerOps env t (length (pages d))] @ [[b]]"
    and cur: "currentPage d' = length (pages d) + 1"
  shows "contentInv env t d'"
proof -
  from inv have ne: "pages d \<noteq> []" and c: "currentPage d = length (pages d)"
    by (simp_all add: contentInv_def atLastPage_def)
  then obtain front lst where split: "pages d = front @ [lst]"
    by (metis append_butlast_last_id)
  have c': "currentPage d - 1 = length front"
    using c split by simp
  have pg': "pages d' = (front @ [lst @ footerOps env t (Suc (length front))]) @ [[b]]"
    using pg split c' by simp
  from inv split have lst0: "count_list lst (titleStamp env t) = 0"
     "count_list lst (numberStamp env (Suc (length front))) = 0"
    by (simp_all add: contentInv_def)
  from inv split have front1: "\<forall>k < length front.
        count_list (front ! k) (titleStamp env t) = 1 \<and>
        count_list (front ! k) (numberStamp env (Suc k)) = 1"
    by (simp add: contentInv_def stampedTimes_def nth_append)
  have "stampedTimes env t 1 d'"
    unfolding stampedTimes_def
  proof (intro allI impI)
    fix k assume "k < length (pages d') - 1"
    then have "k < length front \<or> k = length front"
      using pg' by auto
    then show "count_list (pages d' ! k) (titleStamp env t) = 1 \<and>
        count_list (pages d' ! k) (numberStamp env (Suc k)) = 1"
    proof
      assume "k < length front"
      then show ?thesis
        using front1 pg' by (simp add: nth_append)
    next
      assume "k = length front"
      then show ?thesis
        using lst0 pg' by (simp add: nth_append count_list_footerOps)
    qed
  qed
  moreover have "atLastPage d'"
    using pg' cur split by (simp add: atLastPage_def)
  moreover have "count_list (last (pages d')) (titleStamp env t) = 0"
    "count_list (last (pages d')) (numberStamp env (length (pages d'))) = 0"
    using pg' stamp_neq_lines [OF b] by simp_all
  ultimately show ?thesis
    by (simp add: contentInv_def)
qed

lemma contentInv_wf: "contentInv env t d \<Longrightarrow> wf_doc d"
  by (simp add: contentInv_def atLastPage_wf)

lemma contentInv_drawTitle: "contentInv env t (doc (drawTitle env t initialState))"
  by (simp add: drawTitle_def initialState_def new_jsPDF_def jsdoc_defs Let_def
      contentInv_def atLastPage_def stampedTimes_def titleStamp_def numberStamp_def)

lemma contentInv_drawQuestion:
  assumes "contentInv env t (doc st)"
  shows "contentInv env t (doc (drawQuestion env t qa st))"
proof -
  note eff = drawQuestion_effect [OF contentInv_wf [OF assms], of env t qa]
  show ?thesis
  proof (cases "yPos st + real (length (qLinesOf env qa)) * 14 > pageHeight env - pageMargin")
    case True
    with eff show ?thesis
      by (intro contentInv_break [OF assms]) simp_all
  next
    case False
    with eff show ?thesis
      by (intro contentInv_draw [OF assms]) simp_all
  qed
qed

lemma contentInv_renderMarkdown:
  assumes inv: "contentInv env t (doc st)" and r: "renderMarkdown env t md st = Inr st'"
  shows "contentInv env t (doc st')"
proof -
  from r obtain plain where conv: "markedInnerText env md = Some plain"
    by (auto simp add: renderMarkdown_def split: option.splits)
  note eff = renderMarkdown_effect [OF conv contentInv_wf [OF inv], of t]
  show ?thesis
  proof (cases "yPos st + real (length (answerLinesOf env plain)) * 12
      > pageHeight env - pageMargin")
    case True
    with eff r show ?thesis
      by (intro contentInv_break [OF inv]) simp_all
  next
    case False
    with eff r show ?thesis
      by (intro contentInv_draw [OF inv]) simp_all
  qed
qed

lemma contentInv_pairStep:
  assumes inv: "contentInv env t (doc st)" and step: "pairStep env t qa st = Inr st'"
  shows "contentInv env t (doc st')"
proof -
  from step obtain st1 where
    r: "renderMarkdown env t (a qa) (drawQuestion env t qa st) = Inr st1"
    and st': "st' = st1\<lparr>yPos := yPos st1 + 25\<rparr>"
    by (auto simp add: pairStep_def split: sum.splits)
  from contentInv_renderMarkdown [OF contentInv_drawQuestion [OF inv] r] show ?thesis
    by (simp add: st')
qed

lemma contentInv_forEachPair:
  "contentInv env t (doc st) \<Longrightarrow> forEachPair env t ps st = Inr st' \<Longrightarrow>
     contentInv env t (doc st')"
proof (induction ps arbitrary: st)
  case Nil
  then show ?case by simp
next
  case (Cons p ps)
  from Cons.prems(2) obtain st1 where
    step: "pairStep env t p st = Inr st1" and rest: "forEachPair env t ps st1 = Inr st'"
    by (auto split: sum.splits)
  from Cons.IH [OF contentInv_pairStep [OF Cons.prems(1) step] rest] show ?case .
qed

text \<open>The footer loop appends one footer to every page from \<open>i\<close> on.\<close>

lemma pages_footer_step:
  assumes "1 \<le> i" and "i \<le> length (pages d)"
  shows "pages (addFooter env t i (setPage i d)) =
     (pages d)[i - 1 := pages d ! (i - 1) @ footerOps env t i]"
proof -
  have "wf_doc (setPage i d)" and "currentPage (setPage i d) = i"
    and "pages (setPage i d) = pages d"
    using assms by (simp_all add: setPage_def wf_doc_def)
  then show ?thesis
    by (simp add: pages_addFooter)
qed

lemma footerLoop_pages:
  "1 \<le> i \<Longrightarrow> length (pages d) = n \<Longrightarrow>
   length (pages (footerLoop env t i n d)) = n \<and>
   (\<forall>k < n. pages (footerLoop env t i n d) ! k =
      (if i \<le> Suc k then pages d ! k @ footerOps env t (Suc k) else pages d ! k))"
proof (induction env t i n d rule: footerLoop.induct)
  case (1 env t i n d)
  show ?case
  proof (cases "i \<le> n")
    case False
    then show ?thesis
      using "1.prems" by (simp add: footerLoop.simps [of env t i n d])
  next
    case True
    let ?d' = "addFooter env t i (setPage i d)"
    have pg: "pages ?d' = (pages d)[i - 1 := pages d ! (i - 1) @ footerOps env t i]"
      using True "1.prems" by (simp add: pages_footer_step)
    then have len: "length (pages ?d') = n"
      using "1.prems" by simp
    have IH: "length (pages (footerLoop env t (i + 1) n ?d')) = n \<and>
       (\<forall>k < n. pages (footerLoop env t (i + 1) n ?d') ! k =
          (if i + 1 \<le> Suc k then pages ?d' ! k @ footerOps env t (Suc k) else pages ?d' ! k))"
      using "1.IH" [OF True _ len] by simp
    have unfold: "footerLoop env t i n d = footerLoop env t (i + 1) n ?d'"
      using True by (simp add: footerLoop.simps [of env t i n d])
    show ?thesis
      unfolding unfold
    proof (intro conjI allI impI)
      show "length (pages (footerLoop env t (i + 1) n ?d')) = n"
        using IH by simp
    next
      fix k assume k: "k < n"
      show "pages (footerLoop env t (i + 1) n ?d') ! k =
         (if i \<le> Suc k then pages d ! k @ footerOps env t (Suc k) else pages d ! k)"
      proof (cases "k = i - 1")
        case True
        then have i: "i = Suc k"
          using "1.prems"(1) by simp
        have "pages (footerLoop env t (i + 1) n ?d') ! k = pages ?d' ! k"
          using IH k by (simp add: i)
        also have "\<dots> = pages d ! k @ footerOps env t (Suc k)"
          using pg k "1.prems"(2) by (simp add: i)
        finally show ?thesis
          by (simp add: i)
      next
        case False
        have "pages (footerLoop env t (i + 1) n ?d') ! k =
            (if i + 1 \<le> Suc k then pages ?d' ! k @ footerOps env t (Suc k) else pages ?d' ! k)"
          using IH k by blast
        moreover have "pages ?d' ! k = pages d ! k"
          using pg False by simp
        moreover have "i + 1 \<le> Suc k \<longleftrightarrow> i \<le> Suc k"
          using False by arith
        ultimately show ?thesis
          by simp
      qed
    qed
  qed
qed

lemma exportedPages_Some:
  assumes "ps \<noteq> []" and "forEachPair env t ps (drawTitle env t initialState) = Inr st2"
  shows "exportedPages env t ps =
     Some (pages (footerLoop env t 1 (length (pages (doc st2))) (doc st2)))"
  using assms
  by (simp add: exportedPages_def handlePdfExport_def initialState_def getNumberOfPages_def Let_def)

lemma exportedPages_SomeD:
  assumes "exportedPages env t ps = Some pgs"
  shows "\<exists>st2. forEachPair env t ps (drawTitle env t initialState) = Inr st2 \<and>
     pgs = pages (footerLoop env t 1 (length (pages (doc st2))) (doc st2))"
  using assms
  by (auto simp add: exportedPages_def handlePdfExport_def initialState_def getNumberOfPages_def
      Let_def split: if_splits sum.splits)

text \<open>
  In the saved document every page but the last carries two footers, the one drawn
  at the page break and the one of the footer loop; the last page carries one.
\<close>

lemma exported_footer_counts:
  assumes ex: "exportedPages env t ps = Some pgs" and k: "k < length pgs"
  shows "count_list (pgs ! k) (titleStamp env t) = (if Suc k < length pgs then 2 else 1)
    \<and> count_list (pgs ! k) (numberStamp env (Suc k)) = (if Suc k < length pgs then 2 else 1)"
proof -
  from exportedPages_SomeD [OF ex] obtain st2 where
    run: "forEachPair env t ps (drawTitle env t initialState) = Inr st2"
    and pgs: "pgs = pages (footerLoop env t 1 (length (pages (doc st2))) (doc st2))"
    by blast
  let ?d = "doc st2"
  have inv: "contentInv env t ?d"
    using contentInv_forEachPair [OF contentInv_drawTitle run] .
  have loop: "length pgs = length (pages ?d)"
    "pgs ! k = pages ?d ! k @ footerOps env t (Suc k)"
    using footerLoop_pages [of 1 ?d "length (pages ?d)" env t] k pgs by simp_all
  show ?thesis
  proof (cases "Suc k < length pgs")
    case True
    then have "k < length (pages ?d) - 1"
      using loop(1) by simp
    with inv have "count_list (pages ?d ! k) (titleStamp env t) = 1"
      "count_list (pages ?d ! k) (numberStamp env (Suc k)) = 1"
      by (simp_all add: contentInv_def stampedTimes_def)
    with True show ?thesis
      by (simp add: loop(2) count_list_footerOps)
  next
    case False
    with k loop(1) have last: "Suc k = length (pages ?d)"
      by simp
    then have "pages ?d ! k = last (pages ?d)"
      by (metis diff_Suc_1 last_conv_nth length_0_conv nat.distinct(1))
    with inv last have "count_list (pages ?d ! k) (titleStamp env t) = 0"
      "count_list (pages ?d ! k) (numberStamp env (Suc k)) = 0"
      by (simp_all add: contentInv_def)
    with False show ?thesis
      by (simp add: loop(2) count_list_footerOps)
  qed
qed

text \<open>
  The title \<open>T\<close> and one pair whose answer has 60 lines, converted to 61, make two
  pages.
\<close>

lemma two_pages_run:
  "\<exists>st2. forEachPair a4env ''T'' [pairWithAnswer (linesText 60)]
       (drawTitle a4env ''T'' initialState) = Inr st2 \<and> length (pages (doc st2)) = 2"
proof -
  let ?s0 = "drawTitle a4env ''T'' initialState"
  let ?s1 = "drawQuestion a4env ''T'' (pairWithAnswer (linesText 60)) ?s0"
  have conv: "markedInnerText a4env (a (pairWithAnswer (linesText 60))) =
      Some (linesText 60 @ [CHR 0x0A])"
    by (simp add: a4env_linesText pairWithAnswer_def)
  have len: "length (answerLinesOf a4env (linesText 60 @ [CHR 0x0A])) = 61"
    by (simp add: a4env_answerLines)
  have lenq: "length (qLinesOf a4env (pairWithAnswer (linesText 60))) = 1"
    by (simp add: qLinesOf_def a4env_def pairWithAnswer_def)
  have lent: "length (titleLinesOf a4env ''T'') = 1"
    by (simp add: titleLinesOf_def a4env_def)
  have lim: "pageHeight a4env - pageMargin = 791.89"
    by (simp add: a4env_def pageMargin_def)
  have "getNumberOfPages (doc initialState) = 1"
    by (simp add: initialState_def new_jsPDF_def getNumberOfPages_def)
  then have s0: "yPos ?s0 = 146" "getNumberOfPages (doc ?s0) = 1"
    using lent by (simp_all add: drawTitle_yPos drawTitle_pages)
  have s1: "yPos ?s1 = 175" "getNumberOfPages (doc ?s1) = 1"
    using drawQuestion_break [of a4env "''T''" "pairWithAnswer (linesText 60)" ?s0]
    by (simp_all add: lenq s0 lim)
  from renderMarkdown_break [OF conv, where t = "''T''" and st = ?s1] obtain st' where
    r: "renderMarkdown a4env ''T'' (a (pairWithAnswer (linesText 60))) ?s1 = Inr st'"
    and n: "getNumberOfPages (doc st') = 2"
    by (auto simp add: len s1 lim split: sum.splits)
  then show ?thesis
    by (simp add: pairStep_def getNumberOfPages_def)
qed

text \<open>
  Claim C1 and the code. For the title \<open>T\<close> and one pair whose answer has 60 lines
  the saved document has two pages, and page 1 carries its footer twice: the
  title is drawn twice at the bottom left and the page number 1 twice at the bottom
  right. One footer is drawn by the page break of the content pass, before the
  number of pages is known, the other by the footer loop.
\<close>

theorem first_page_footer_drawn_twice:
  "map_option length (exportedPages a4env ''T'' [pairWithAnswer (linesText 60)]) = Some 2
   \<and> map_option (\<lambda>pgs. count_list (pgs ! 0) (titleStamp a4env ''T''))
        (exportedPages a4env ''T'' [pairWithAnswer (linesText 60)]) = Some 2
   \<and> map_option (\<lambda>pgs. count_list (pgs ! 0) (numberStamp a4env 1))
        (exportedPages a4env ''T'' [pairWithAnswer (linesText 60)]) = Some 2"
proof -
  from two_pages_run obtain st2 where
    run: "forEachPair a4env ''T'' [pairWithAnswer (linesText 60)]
       (drawTitle a4env ''T'' initialState) = Inr st2"
    and n: "length (pages (doc st2)) = 2"
    by blast
  let ?pgs = "pages (footerLoop a4env ''T'' 1 (length (pages (doc st2))) (doc st2))"
  have ex: "exportedPages a4env ''T'' [pairWithAnswer (linesText 60)] = Some ?pgs"
    using exportedPages_Some [OF _ run] by simp
  have len: "length ?pgs = 2"
    using footerLoop_pages [of 1 "doc st2" "length (pages (doc st2))" a4env "''T''"] n by simp
  have pos: "0 < length ?pgs"
    using len by simp
  from exported_footer_counts [OF ex pos] len show ?thesis
    by (simp add: ex)
qed


subsection \<open>The title\<close>

lemma titleFirst_update:
  assumes "titleFirst env t pgs"
  shows "titleFirst env t (pgs[k := pgs ! k @ bs])"
proof (cases pgs)
  case Nil
  with assms show ?thesis
    by (simp add: titleFirst_def)
next
  case (Cons pg rest)
  with assms obtain b bs' where pg: "pg = b # bs'" and b: "b = titleBlock env t"
    by (auto simp add: titleFirst_def split: list.splits)
  show ?thesis
    by (cases k) (simp_all add: Cons pg b titleFirst_def)
qed

lemma titleFirst_append: "titleFirst env t pgs \<Longrightarrow> titleFirst env t (pgs @ qs)"
  by (auto simp add: titleFirst_def split: list.splits)

lemma titleFirst_drawTitle: "titleFirst env t (pages (doc (drawTitle env t initialState)))"
  by (simp add: drawTitle_def initialState_def new_jsPDF_def jsdoc_defs Let_def
      titleFirst_def titleBlock_def titleLinesOf_def)

lemma titleFirst_drawQuestion:
  assumes "wf_doc (doc st)" and "titleFirst env t (pages (doc st))"
  shows "titleFirst env t (pages (doc (drawQuestion env t qa st)))"
  using drawQuestion_effect [OF assms(1), of env t qa] assms(2)
  by (auto simp add: titleFirst_update titleFirst_append split: if_splits)

lemma titleFirst_renderMarkdown:
  assumes "wf_doc (doc st)" and "titleFirst env t (pages (doc st))"
    and r: "renderMarkdown env t md st = Inr st'"
  shows "titleFirst env t (pages (doc st'))"
proof -
  from r obtain plain where conv: "markedInnerText env md = Some plain"
    by (auto simp add: renderMarkdown_def split: option.splits)
  from renderMarkdown_effect [OF conv assms(1), of t] r assms(2) show ?thesis
    by (auto simp add: titleFirst_update titleFirst_append split: if_splits)
qed

lemma titleFirst_forEachPair:
  "contentInv env t (doc st) \<Longrightarrow> titleFirst env t (pages (doc st)) \<Longrightarrow>
   forEachPair env t ps st = Inr st' \<Longrightarrow> titleFirst env t (pages (doc st'))"
proof (induction ps arbitrary: st)
  case Nil
  then show ?case by simp
next
  case (Cons p ps)
  from Cons.prems(3) obtain st1 where
    step: "pairStep env t p st = Inr st1" and rest: "forEachPair env t ps st1 = Inr st'"
    by (auto split: sum.splits)
  from step obtain st0 where
    r: "renderMarkdown env t (a p) (drawQuestion env t p st) = Inr st0"
    and st1: "st1 = st0\<lparr>yPos := yPos st0 + 25\<rparr>"
    by (auto simp add: pairStep_def split: sum.splits)
  have wf: "wf_doc (doc st)"
    using Cons.prems(1) by (rule contentInv_wf)
  have "titleFirst env t (pages (doc (drawQuestion env t p st)))"
    using wf Cons.prems(2) by (rule titleFirst_drawQuestion)
  from titleFirst_renderMarkdown [OF wf_doc_drawQuestion [OF wf] this r]
  have first1: "titleFirst env t (pages (doc st1))"
    by (simp add: st1)
  from Cons.IH [OF contentInv_pairStep [OF Cons.prems(1) step] first1 rest] show ?case .
qed

lemma titleFirst_exported:
  assumes "exportedPages env t ps = Some pgs"
  shows "titleFirst env t pgs"
proof -
  from exportedPages_SomeD [OF assms] obtain st2 where
    run: "forEachPair env t ps (drawTitle env t initialState) = Inr st2"
    and pgs: "pgs = pages (footerLoop env t 1 (length (pages (doc st2))) (doc st2))"
    by blast
  let ?d = "doc st2"
  have first2: "titleFirst env t (pages ?d)"
    using contentInv_drawTitle titleFirst_drawTitle run by (rule titleFirst_forEachPair)
  then obtain b bs rest where d: "pages ?d = (b # bs) # rest" and b: "b = titleBlock env t"
    by (auto simp add: titleFirst_def split: list.splits)
  from footerLoop_pages [of 1 ?d "length (pages ?d)" env t]
  have len: "length pgs = length (pages ?d)" and "pgs ! 0 = pages ?d ! 0 @ footerOps env t (Suc 0)"
    using d by (simp_all add: pgs)
  then obtain rest' where "pgs = ((b # bs) @ footerOps env t (Suc 0)) # rest'"
    using d by (cases pgs) simp_all
  then show ?thesis
    by (simp add: titleFirst_def b)
qed

text \<open>
  Claim C10. Whatever the title and however many lines it wraps into, drawing the
  title leaves the document with its one page, on which the title is the only
  drawing operation, at the vertical offset 80: no page is added and no footer is
  drawn, and the cursor moves to 80 plus 26 for each line plus 40, even beyond the
  page. In every document that the export saves, the title heading is the first
  drawing operation of page 1.
\<close>

theorem title_never_breaks:
  "pages (doc (drawTitle env t initialState)) = [[titleBlock env t]]
   \<and> op_text (titleBlock env t) = TLines (titleLinesOf env t)
   \<and> op_y (titleBlock env t) = 80
   \<and> currentPage (doc (drawTitle env t initialState)) = 1
   \<and> getNumberOfPages (doc (drawTitle env t initialState)) = 1
   \<and> yPos (drawTitle env t initialState) = 80 + real (length (titleLinesOf env t)) * 26 + 40
   \<and> (case exportedPages env t ps of None \<Rightarrow> True | Some pgs \<Rightarrow> titleFirst env t pgs)"
proof -
  have "case exportedPages env t ps of None \<Rightarrow> True | Some pgs \<Rightarrow> titleFirst env t pgs"
    using titleFirst_exported [of env t ps] by (simp split: option.splits)
  then show ?thesis
    by (simp add: drawTitle_def initialState_def new_jsPDF_def jsdoc_defs titleLinesOf_def
        titleBlock_def Let_def)
qed

text \<open>
  The tall title of 39 lines stays on page 1 of the saved document, and the cursor
  is at 1134 after it.
\<close>

theorem title_never_breaks_witness:
  "yPos (drawTitle a4env tallTitle initialState) = 1134
   \<and> getNumberOfPages (doc (drawTitle a4env tallTitle initialState)) = 1
   \<and> map_option (titleFirst a4env tallTitle)
        (exportedPages a4env tallTitle [pairWithAnswer ''A'']) = Some True"
proof -
  note inst = title_never_breaks [of a4env tallTitle "[pairWithAnswer ''A'']"]
  have len: "length (titleLinesOf a4env tallTitle) = 39"
    by (simp add: titleLinesOf_def a4env_def length_tallTitle)
  have "fst (handlePdfExport a4env tallTitle [pairWithAnswer ''A''] []) = None
    \<and> length (snd (handlePdfExport a4env tallTitle [pairWithAnswer ''A''] [])) = 1"
    using export_completes [of "[pairWithAnswer ''A'']" a4env tallTitle "[]"]
    by (simp add: a4env_converts)
  then obtain f d where "handlePdfExport a4env tallTitle [pairWithAnswer ''A''] [] = (None, [(f, d)])"
    by (cases "handlePdfExport a4env tallTitle [pairWithAnswer ''A''] []")
      (auto simp add: length_Suc_conv)
  then have "exportedPages a4env tallTitle [pairWithAnswer ''A''] = Some (pages d)"
    by (simp add: exportedPages_def)
  with inst len show ?thesis
    by simp
qed

subsection \<open>Two runs of the export\<close>

text \<open>
  What the export reads from its libraries: the page size, the lines of the title
  under the bold font of size 24, the lines of each question under the bold font of
  size 12, the conversion of each answer and the lines of the converted answer
  under the normal font of size 11. The footers drawn at page breaks change the
  font, but each block sets its own before its text is split.
\<close>

lemma addFooter_cong:
  assumes "pageHeight env1 = pageHeight env2" and "pageWidth env1 = pageWidth env2"
  shows "addFooter env1 t n d = addFooter env2 t n d"
  using assms by (simp add: addFooter_def)

lemma drawTitle_cong:
  assumes "pageWidth env1 = pageWidth env2"
    and "titleLinesOf env1 t = titleLinesOf env2 t"
  shows "drawTitle env1 t st = drawTitle env2 t st"
  using assms
  by (simp add: drawTitle_def titleLinesOf_def Let_def setFont_def setFontSize_def
      setTextColor_def)

lemma drawQuestion_cong:
  assumes "pageHeight env1 = pageHeight env2" and "pageWidth env1 = pageWidth env2"
    and "qLinesOf env1 qa = qLinesOf env2 qa"
  shows "drawQuestion env1 t qa st = drawQuestion env2 t qa st"
  using assms addFooter_cong [OF assms(1,2)]
  by (simp add: drawQuestion_def qLinesOf_def Let_def setFont_def setFontSize_def
      setTextColor_def)

lemma renderMarkdown_cong:
  assumes "pageHeight env1 = pageHeight env2" and "pageWidth env1 = pageWidth env2"
    and "markedInnerText env1 md = markedInnerText env2 md"
    and "\<forall>plain. markedInnerText env1 md = Some plain \<longrightarrow>
           answerLinesOf env1 plain = answerLinesOf env2 plain"
  shows "renderMarkdown env1 t md st = renderMarkdown env2 t md st"
proof (cases "markedInnerText env1 md")
  case None
  with assms(3) show ?thesis
    by (simp add: renderMarkdown_def)
next
  case (Some plain)
  with assms(4) have "answerLinesOf env1 plain = answerLinesOf env2 plain"
    by simp
  with Some assms(1-3) addFooter_cong [OF assms(1,2)] show ?thesis
    by (simp add: renderMarkdown_def answerLinesOf_def Let_def setFont_def setFontSize_def
        setTextColor_def)
qed

lemma pairStep_cong:
  assumes "pageHeight env1 = pageHeight env2" and "pageWidth env1 = pageWidth env2"
    and "qLinesOf env1 qa = qLinesOf env2 qa"
    and "markedInnerText env1 (a qa) = markedInnerText env2 (a qa)"
    and "\<forall>plain. markedInnerText env1 (a qa) = Some plain \<longrightarrow>
           answerLinesOf env1 plain = answerLinesOf env2 plain"
  shows "pairStep env1 t qa st = pairStep env2 t qa st"
  using drawQuestion_cong [OF assms(1-3)] renderMarkdown_cong [OF assms(1,2,4,5)]
  by (simp add: pairStep_def)

lemma forEachPair_cong:
  "agreeOn env1 env2 t ps \<Longrightarrow> forEachPair env1 t' ps st = forEachPair env2 t' ps st"
proof (induction ps arbitrary: st)
  case Nil
  show ?case by simp
next
  case (Cons p ps)
  from Cons.prems have rest: "agreeOn env1 env2 t ps"
    by (simp add: agreeOn_def)
  from Cons.prems have "pairStep env1 t' p st = pairStep env2 t' p st"
    by (intro pairStep_cong) (simp_all add: agreeOn_def)
  with Cons.IH [OF rest] show ?case
    by (simp split: sum.splits)
qed

lemma footerLoop_cong:
  "pageHeight env1 = pageHeight env2 \<Longrightarrow> pageWidth env1 = pageWidth env2 \<Longrightarrow>
   footerLoop env1 t i n d = footerLoop env2 t i n d"
proof (induction env1 t i n d rule: footerLoop.induct)
  case (1 env1 t i n d)
  show ?case
  proof (cases "i \<le> n")
    case True
    have "footerLoop env1 t (i + 1) n (addFooter env1 t i (setPage i d)) =
        footerLoop env2 t (i + 1) n (addFooter env1 t i (setPage i d))"
      using "1.IH" [OF True "1.prems"] .
    then show ?thesis
      using True addFooter_cong [OF "1.prems"]
      by (simp add: footerLoop.simps [of env1 t i n d] footerLoop.simps [of env2 t i n d])
  next
    case False
    then show ?thesis
      by (simp add: footerLoop.simps [of env1 t i n d] footerLoop.simps [of env2 t i n d])
  qed
qed

lemma handlePdfExport_cong:
  assumes "agreeOn env1 env2 t ps"
  shows "handlePdfExport env1 t ps saved = handlePdfExport env2 t ps saved"
proof -
  from assms have hw: "pageHeight env1 = pageHeight env2" "pageWidth env1 = pageWidth env2"
    and tl: "titleLinesOf env1 t = titleLinesOf env2 t"
    by (simp_all add: agreeOn_def)
  show ?thesis
    by (simp add: handlePdfExport_def Let_def drawTitle_cong [OF hw(2) tl]
        forEachPair_cong [OF assms] footerLoop_cong [OF hw] split: sum.splits)
qed

text \<open>
  Claim C8. Two runs of the export on the same title and the same pairs, whatever
  was saved before each and whatever state the libraries are in, provided they give
  the same page size and the same answers on the texts of this title and these
  pairs in both runs: the two runs end the same way and save the same file, with
  the same number of pages and on every page the same texts at the same places.
\<close>

theorem export_deterministic:
  assumes "agreeOn env1 env2 t ps"
  shows "fst (handlePdfExport env1 t ps saved1) = fst (handlePdfExport env2 t ps saved2)
   \<and> drop (length saved1) (snd (handlePdfExport env1 t ps saved1)) =
       drop (length saved2) (snd (handlePdfExport env2 t ps saved2))
   \<and> map_option length (exportedPages env1 t ps) = map_option length (exportedPages env2 t ps)
   \<and> map_option (map (map (\<lambda>b. (op_text b, op_x b, op_y b))))
        (exportedPages env1 t ps) =
       map_option (map (map (\<lambda>b. (op_text b, op_x b, op_y b))))
        (exportedPages env2 t ps)"
proof -
  have same: "handlePdfExport env1 t ps saved = handlePdfExport env2 t ps saved" for saved
    using assms by (rule handlePdfExport_cong)
  have "exportedPages env1 t ps = exportedPages env2 t ps"
    by (simp add: exportedPages_def same)
  moreover have "fst (handlePdfExport env2 t ps saved1) = fst (handlePdfExport env2 t ps saved2)
   \<and> drop (length saved1) (snd (handlePdfExport env2 t ps saved1)) =
       drop (length saved2) (snd (handlePdfExport env2 t ps saved2))"
    by (simp add: handlePdfExport_def Let_def split: sum.splits)
  ultimately show ?thesis
    by (simp add: same)
qed

text \<open>
  The concrete setting and its variant differ (the variant throws on the answer
  \<open>B\<close>) and agree on the title \<open>T\<close> and the pair of \<open>Q\<close> and \<open>A\<close>: a first run in
  the one and a second run in the other, after the first, save the same one page.
\<close>

theorem export_deterministic_witness:
  "agreeOn a4env a4envVariant ''T'' [pairWithAnswer ''A'']
   \<and> markedInnerText a4env ''B'' \<noteq> markedInnerText a4envVariant ''B''
   \<and> map_option length (exportedPages a4env ''T'' [pairWithAnswer ''A'']) = Some 1
   \<and> map_option length (exportedPages a4envVariant ''T'' [pairWithAnswer ''A'']) = Some 1
   \<and> fst (handlePdfExport a4envVariant ''T'' [pairWithAnswer ''A'']
        (snd (handlePdfExport a4env ''T'' [pairWithAnswer ''A''] []))) = None
   \<and> drop 1 (snd (handlePdfExport a4envVariant ''T'' [pairWithAnswer ''A'']
        (snd (handlePdfExport a4env ''T'' [pairWithAnswer ''A''] [])))) =
      snd (handlePdfExport a4env ''T'' [pairWithAnswer ''A''] [])"
proof -
  let ?ps = "[pairWithAnswer ''A'']"
  let ?first = "handlePdfExport a4env ''T'' ?ps []"
  have agree: "agreeOn a4env a4envVariant ''T'' ?ps"
    by (simp add: agreeOn_def a4envVariant_def a4env_def titleLinesOf_def qLinesOf_def
        answerLinesOf_def contentWidth_def pairWithAnswer_def)
  have differ: "markedInnerText a4env ''B'' \<noteq> markedInnerText a4envVariant ''B''"
    by (simp add: a4envVariant_def a4env_def)
  have fin: "fst ?first = None \<and> length (snd ?first) = 1"
    using export_completes [of ?ps a4env "''T''" "[]"] by (simp add: a4env_converts)
  then obtain f d where first: "?first = (None, [(f, d)])"
    by (cases ?first) (auto simp add: length_Suc_conv)
  have conv: "markedInnerText a4env (a (pairWithAnswer ''A'')) = Some [CHR ''A'', CHR 0x0A]"
    by (simp add: a4env_def pairWithAnswer_def)
  have "getNumberOfPages (doc initialState) = 1"
    by (simp add: initialState_def new_jsPDF_def getNumberOfPages_def)
  then have one: "getNumberOfPages (doc (drawTitle a4env ''T'' initialState)) = 1"
    by (simp add: drawTitle_pages)
  have y0: "yPos (drawTitle a4env ''T'' initialState) = 146"
    by (simp add: drawTitle_yPos titleLinesOf_def a4env_def)
  have ph: "pageHeight a4env = 841.89"
    by (simp add: a4env_def)
  have lenq: "length (qLinesOf a4env (pairWithAnswer ''A'')) = 1"
    by (simp add: qLinesOf_def a4env_def pairWithAnswer_def)
  have lena: "length (answerLinesOf a4env [CHR ''A'', CHR 0x0A]) = 2"
    by (simp add: answerLinesOf_def a4env_def)
  let ?s1 = "drawQuestion a4env ''T'' (pairWithAnswer ''A'') (drawTitle a4env ''T'' initialState)"
  have s1: "yPos ?s1 = 175" "getNumberOfPages (doc ?s1) = 1"
    using drawQuestion_break [of a4env "''T''" "pairWithAnswer ''A''"
        "drawTitle a4env ''T'' initialState"]
    by (simp_all add: lenq y0 one ph pageMargin_def)
  from renderMarkdown_break [OF conv, where t = "''T''" and st = ?s1] obtain st' where
    r: "renderMarkdown a4env ''T'' (a (pairWithAnswer ''A'')) ?s1 = Inr st'"
    and n: "getNumberOfPages (doc st') = 1"
    by (auto simp add: lena s1 ph pageMargin_def split: sum.splits)
  then have run: "forEachPair a4env ''T'' ?ps (drawTitle a4env ''T'' initialState) =
      Inr (st'\<lparr>yPos := yPos st' + 25\<rparr>)"
    by (simp add: pairStep_def)
  have pages1: "map_option length (exportedPages a4env ''T'' ?ps) = Some 1"
    using exportedPages_Some [OF _ run]
      footerLoop_pages [of 1 "doc st'" "length (pages (doc st'))" a4env "''T''"] n
    by (simp add: getNumberOfPages_def)
  note inst = export_deterministic [OF agree, of "[]" "snd ?first"]
  from inst pages1
  have pages2: "map_option length (exportedPages a4envVariant ''T'' ?ps) = Some 1"
    by simp
  from inst first
  have second: "fst (handlePdfExport a4envVariant ''T'' ?ps (snd ?first)) = None
     \<and> drop 1 (snd (handlePdfExport a4envVariant ''T'' ?ps (snd ?first))) = snd ?first"
    by simp
  from agree differ pages1 pages2 second show ?thesis
    by blast
qed

end
